theory Spec2Isabelle
  imports Main "HOL-Library.AList" "HOL-Library.Word"
begin

section \<open>Chat commands: src/api/chat/CommandHander.ts\<close>

text \<open>
  JavaScript strings are modelled as \<^typ>\<open>string\<close>, one \<^typ>\<open>char\<close> per character of the
  source string. Exceptions are values: \<open>TypeError\<close> is thrown at registration,
  \<open>CallError\<close> is the user-facing error of a call.
\<close>

datatype error = TypeError string | CallError string

subsection \<open>betterSplitOnSpaces\<close>

text \<open>
  The \<^verbatim>\<open>for (const char of input)\<close> loop with its three variables \<open>collector\<close>,
  \<open>output\<close> and \<open>in_string\<close>; the equation for the empty input is the code after
  the loop (\<^verbatim>\<open>if (collector) output.push(collector)\<close>).
\<close>

fun split_loop :: "string \<Rightarrow> string \<Rightarrow> string list \<Rightarrow> bool \<Rightarrow> string list" where
  "split_loop [] collector output in_string =
     (if collector \<noteq> [] then output @ [collector] else output)"
| "split_loop (c # cs) collector output in_string =
     (if c = CHR 0x27 then split_loop cs collector output (\<not> in_string)
      else if c = CHR '' '' \<and> \<not> in_string then split_loop cs [] (output @ [collector]) in_string
      else split_loop cs (collector @ [c]) output in_string)"

definition betterSplitOnSpaces :: "string \<Rightarrow> string list" where
  "betterSplitOnSpaces input = split_loop input [] [] False"

subsection \<open>RegisteredChatCommand\<close>

record ChatCommandParameter =
  isRest :: bool
  required :: bool
  name :: string

text \<open>
  The callback of a command is a JavaScript function; the model keeps the other three
  fields and represents a call of the callback by the value \<open>Invoked\<close> below.
\<close>

record RegisteredChatCommand =
  cmd_name :: string
  params :: "ChatCommandParameter list"
  description :: string

text \<open>String helpers of the JavaScript standard library, as the code uses them.\<close>

definition startsWith :: "string \<Rightarrow> string \<Rightarrow> bool" where
  "startsWith s p = (take (length p) s = p)"

definition endsWith :: "string \<Rightarrow> string \<Rightarrow> bool" where
  "endsWith s p = (length p \<le> length s \<and> drop (length s - length p) s = p)"

definition substr :: "string \<Rightarrow> nat \<Rightarrow> nat \<Rightarrow> string" where
  "substr s start len = take len (drop start s)"

fun join :: "string \<Rightarrow> string list \<Rightarrow> string" where
  "join sep [] = []"
| "join sep [x] = x"
| "join sep (x # y # ys) = x @ sep @ join sep (y # ys)"

text \<open>
  \<open>String.prototype.trim\<close> removes white space and line terminators at both ends; of
  the characters a \<^typ>\<open>char\<close> can hold these are U+0009 to U+000D, U+0020 and U+00A0.
\<close>

definition is_space :: "char \<Rightarrow> bool" where
  "is_space c = (c \<in> {CHR 0x09, CHR 0x0A, CHR 0x0B, CHR 0x0C, CHR 0x0D, CHR 0x20, CHR 0xA0})"

definition trim :: "string \<Rightarrow> string" where
  "trim s = rev (dropWhile is_space (rev (dropWhile is_space s)))"

fun includes_double_space :: "string \<Rightarrow> bool" where
  "includes_double_space (a # b # cs) =
     ((a = CHR '' '' \<and> b = CHR '' '') \<or> includes_double_space (b # cs))"
| "includes_double_space _ = False"

text \<open>
  \<open>index_of c s\<close> is the position of the first \<open>c\<close> in \<open>s\<close>, or \<open>None\<close> when \<open>s\<close>
  has no \<open>c\<close>.
\<close>

fun index_of :: "char \<Rightarrow> string \<Rightarrow> nat option" where
  "index_of c [] = None"
| "index_of c (x # xs) =
     (if x = c then Some 0 else (case index_of c xs of None \<Rightarrow> None | Some n \<Rightarrow> Some (Suc n)))"

text \<open>
  \<open>matchedParams\<close>: the matches of the global regular expression of \<open>parse\<close>, left to
  right. Its two alternatives are: an opening square bracket, any characters other than
  a closing square bracket, a closing square bracket; or the same with angle brackets.
  At a \<open>[\<close> the first alternative matches up to the next \<open>]\<close> when there is one; at a
  \<open><\<close> the second matches up to the next \<open>>\<close>; anywhere else, and at an opening
  bracket that is never closed, no match starts and the scan moves one character on.
  After a match the scan goes on behind it. No match at all is \<open>null\<close>, which the code
  replaces by the empty array.
\<close>

fun matchParams :: "string \<Rightarrow> string list" where
  "matchParams [] = []"
| "matchParams (c # cs) =
     (if c = CHR ''['' then
        (case index_of CHR '']'' cs of
           Some n \<Rightarrow> (c # take n cs @ '']'') # matchParams (drop (Suc n) cs)
         | None \<Rightarrow> matchParams cs)
      else if c = CHR ''<'' then
        (case index_of CHR ''>'' cs of
           Some n \<Rightarrow> (c # take n cs @ ''>'') # matchParams (drop (Suc n) cs)
         | None \<Rightarrow> matchParams cs)
      else matchParams cs)"

text \<open>
  \<open>matchedCmdName\<close>: the match of the second regular expression of \<open>parse\<close>, anchored
  at the start, is the longest prefix without \<open>[\<close> and \<open><\<close>; it is then trimmed.
\<close>

definition matchCmdName :: "string \<Rightarrow> string" where
  "matchCmdName usage = trim (takeWhile (\<lambda>c. c \<noteq> CHR ''['' \<and> c \<noteq> CHR ''<'') usage)"

text \<open>
  The loop over \<open>matchedParams\<close> of \<open>RegisteredChatCommand.parse\<close>, with its flag
  \<open>wasOptional\<close>; \<open>ms = []\<close> is the test \<^verbatim>\<open>i === matchedParams.length - 1\<close>.
\<close>

fun parse_params :: "string list \<Rightarrow> bool \<Rightarrow> error + ChatCommandParameter list" where
  "parse_params [] wasOptional = Inr []"
| "parse_params (m # ms) wasOptional =
     (let wasOptional' = (wasOptional \<or> startsWith m ''['') in
      if startsWith m ''<'' \<and> wasOptional'
      then Inl (TypeError ''Required parameter cannot come after an optional parameter.'')
      else
        let inner = substr m 1 (length m - 2) in
        if endsWith inner ''...'' \<and> ms \<noteq> []
        then Inl (TypeError ''Rest parameter must be last.'')
        else
          (case parse_params ms wasOptional' of
             Inl e \<Rightarrow> Inl e
           | Inr ps \<Rightarrow>
               Inr (\<lparr> isRest = endsWith inner ''...'',
                      required = startsWith m ''<'',
                      name = (if endsWith inner ''...''
                              then substr inner 0 (length inner - 3) else inner) \<rparr> # ps)))"

definition parse :: "string \<Rightarrow> string \<Rightarrow> error + RegisteredChatCommand" where
  "parse usage descr =
     (let matchedParams = matchParams usage;
          matchedCmdName = matchCmdName usage in
      if matchedCmdName = [] then Inl (TypeError ''Invalid command name.'')
      else if includes_double_space matchedCmdName
      then Inl (TypeError ''Command name cannot contain spaces.'')
      else
        (case parse_params matchedParams False of
           Inl e \<Rightarrow> Inl e
         | Inr cmdParams \<Rightarrow>
             Inr \<lparr> cmd_name = matchedCmdName, params = cmdParams, description = descr \<rparr>))"

definition render_param :: "ChatCommandParameter \<Rightarrow> string" where
  "render_param param =
     (if required param then ''<'' else ''['') @ name param
     @ (if required param then ''>'' else '']'')"

definition createUsage :: "RegisteredChatCommand \<Rightarrow> string" where
  "createUsage cmd = ''/'' @ cmd_name cmd @ '' '' @ join '' '' (map render_param (params cmd))"

text \<open>
  \<open>verify\<close>: \<open>consume\<close> is \<open>None\<close> for the \<open>undefined\<close> that \<open>shift\<close> gives on an empty
  array. \<^verbatim>\<open>!consume\<close> holds for \<open>undefined\<close> and for the empty string. The result
  object \<open>parsed\<close> is an association list in insertion order; assigning an existing key
  overwrites its value in place.
\<close>

definition missing_message :: "RegisteredChatCommand \<Rightarrow> ChatCommandParameter \<Rightarrow> string" where
  "missing_message cmd param =
     ''Usage: <color=#12a50a>'' @ createUsage cmd @ ''</color>'' @ [CHR 0x0A]
     @ ''<color=#f7584e>Missing: '' @ name param @ ''</color>'' @ [CHR 0x0A, CHR 0x0A]
     @ description cmd"

definition consume_arg :: "ChatCommandParameter \<Rightarrow> string list \<Rightarrow> string option \<times> string list" where
  "consume_arg param argsCloned =
     (if isRest param then (Some (join '' '' argsCloned), argsCloned)
      else (case argsCloned of [] \<Rightarrow> (None, []) | a # as \<Rightarrow> (Some a, as)))"

fun verify_loop ::
  "RegisteredChatCommand \<Rightarrow> ChatCommandParameter list \<Rightarrow> string list \<Rightarrow>
   (string \<times> string) list \<Rightarrow> error + (string \<times> string) list" where
  "verify_loop cmd [] argsCloned parsed = Inr parsed"
| "verify_loop cmd (param # ps) argsCloned parsed =
     (case consume_arg param argsCloned of
        (None, _) \<Rightarrow>
          (if required param then Inl (CallError (missing_message cmd param)) else Inr parsed)
      | (Some consume, rest) \<Rightarrow>
          (if consume = []
           then (if required param then Inl (CallError (missing_message cmd param))
                 else Inr parsed)
           else verify_loop cmd ps rest (AList.update (name param) consume parsed)))"

definition verify :: "RegisteredChatCommand \<Rightarrow> string list \<Rightarrow> error + (string \<times> string) list" where
  "verify cmd args = verify_loop cmd (params cmd) args []"

subsection \<open>ChatCommandHandler\<close>

text \<open>
  \<open>commands\<close> is a JavaScript \<open>Map\<close> from command name to command: an association
  list in insertion order. A successful \<open>parseMessage\<close> ends in the call
  \<^verbatim>\<open>command.callback(ctx, parsed)\<close>, represented by \<open>Invoked command parsed\<close>.
\<close>

datatype invocation = Invoked RegisteredChatCommand "(string \<times> string) list"

definition registerCommand ::
  "string \<Rightarrow> string \<Rightarrow> (string \<times> RegisteredChatCommand) list \<Rightarrow>
   error + (string \<times> RegisteredChatCommand) list" where
  "registerCommand usage descr commands =
     (case parse usage descr of
        Inl e \<Rightarrow> Inl e
      | Inr parsedCommand \<Rightarrow> Inr (AList.update (cmd_name parsedCommand) parsedCommand commands))"

definition parseMessage ::
  "(string \<times> RegisteredChatCommand) list \<Rightarrow> string \<Rightarrow> error + invocation" where
  "parseMessage commands message =
     (case betterSplitOnSpaces message of
        [] \<Rightarrow> Inl (CallError ''Bad command call.'')
      | commandName # args \<Rightarrow>
          if commandName = [] then Inl (CallError ''Bad command call.'')
          else
            (case map_of commands commandName of
               None \<Rightarrow> Inl (CallError (''No command with name: '' @ commandName))
             | Some command \<Rightarrow>
                 (case verify command args of
                    Inl e \<Rightarrow> Inl e
                  | Inr parsed \<Rightarrow> Inr (Invoked command parsed))))"

text \<open>
  The listener on \<open>player.chat\<close>: a message that does not start with \<open>/\<close> is left
  alone (\<open>None\<close>); otherwise the text behind the slash is given to \<open>parseMessage\<close>.
\<close>

definition on_player_chat ::
  "(string \<times> RegisteredChatCommand) list \<Rightarrow> string \<Rightarrow> (error + invocation) option" where
  "on_player_chat commands message =
     (if startsWith message ''/'' then Some (parseMessage commands (substr message 1 (length message)))
      else None)"


section \<open>The worker: src/Worker.ts\<close>

text \<open>
  The worker is a state machine on the record \<open>Worker\<close> below: each method takes the
  state and returns the new one. The code is asynchronous; the model runs every
  listener to its end before the next event (no other event interleaves at an
  \<open>await\<close>), and a listener does not throw, so the inner \<open>catch\<close> of \<open>handleMessage\<close>
  has no branch here. \<open>Date.now()\<close> is the argument \<open>now\<close> of the event being handled
  (milliseconds). Logging is left out.

  Code of other packages and of files that are not among the sources is taken as a
  parameter of the model, the record \<open>externals\<close>, or modelled from the specification
  where a definition says so.
\<close>

subsection \<open>Packets\<close>

type_synonym byte = "8 word"

text \<open>\<open>rinfo\<close>: address and port. The key \<open>address:port\<close> of the map \<open>connections\<close> is this pair.\<close>

type_synonym remote = "string \<times> nat"

datatype DisconnectReason =
  IncorrectVersion | Hacking | Banned | GameFull | GameStarted | GameNotFound

text \<open>The messages of the \<open>i18n\<close> catalogue that the worker uses, by key.\<close>

datatype i18n =
  havent_received_all_mods | reactor_not_enabled_on_server | reactor_required_on_server
  | missing_required_mod | mod_banned_on_server | bad_mod_version | mod_not_recognised
  | reactor_required_for_room | reactor_not_enabled_for_room

text \<open>
  The arguments of \<open>disconnect\<close> and \<open>joinError\<close>: none, a reason code, or a
  catalogue message with the strings that fill it.
\<close>

datatype reason = NoReason | Code DisconnectReason | Localized i18n "string list"

datatype ModPluginSide = Clientside | Serverside | Both

text \<open>
  The child messages the worker listens to or sends. \<open>ReactorModDeclaration\<close> is the
  mod declaration inside a Reactor message (tag \<open>0xff\<close>); \<open>JoinGameError\<close>,
  \<open>JoinGameNotify\<close> and \<open>JoinedGame\<close> are the answers to a join. \<open>OtherMessage\<close>, by
  tag, stands for every child whose listener is not embedded (HostGame, GameData,
  GameDataTo, Rpc, GetGameList and the Reactor handshake).
\<close>

datatype message =
    AlterGameMessage nat nat nat
  | StartGameMessage nat
  | EndGameMessage nat nat bool
  | KickPlayerMessage nat nat bool
  | JoinGameMessage nat
  | ReactorModDeclaration nat string string ModPluginSide
  | JoinGameError reason
  | JoinGameNotify nat nat nat
  | JoinedGame nat nat nat "nat list"
  | OtherMessage nat

text \<open>
  The root packets. \<open>ModdedHelloPacket\<close> carries its nonce and, as one value, the
  fields that only its own listener reads (that listener is a parameter below).
\<close>

datatype root_packet =
    UnreliablePacket "message list"
  | ReliablePacket nat "message list"
  | ModdedHelloPacket nat string
  | DisconnectPacket reason
  | AcknowledgePacket nat "nat list"
  | PingPacket nat

text \<open>\<open>packet.nonce\<close>, \<open>None\<close> for \<open>undefined\<close>.\<close>

fun nonce_of :: "root_packet \<Rightarrow> nat option" where
  "nonce_of (ReliablePacket n _) = Some n"
| "nonce_of (ModdedHelloPacket n _) = Some n"
| "nonce_of (AcknowledgePacket n _) = Some n"
| "nonce_of (PingPacket n) = Some n"
| "nonce_of _ = None"

fun is_AcknowledgePacket :: "root_packet \<Rightarrow> bool" where
  "is_AcknowledgePacket (AcknowledgePacket _ _) = True"
| "is_AcknowledgePacket _ = False"

fun is_ModdedHelloPacket :: "root_packet \<Rightarrow> bool" where
  "is_ModdedHelloPacket (ModdedHelloPacket _ _) = True"
| "is_ModdedHelloPacket _ = False"

text \<open>What \<open>decoder.parse\<close> does with a datagram: it throws, returns \<open>null\<close>, or returns a packet.\<close>

datatype parse_result = Throws | Null | Parsed root_packet

text \<open>\<open>buffer[i]\<close>, \<open>None\<close> for \<open>undefined\<close> behind the end of the buffer.\<close>

definition byte_at :: "byte list \<Rightarrow> nat \<Rightarrow> byte option" where
  "byte_at buf i = (if i < length buf then Some (buf ! i) else None)"

subsection \<open>State\<close>

text \<open>
  \<open>'b\<close> is the type of the buffers that are written for outgoing packets. A
  \<open>SentPacket\<close> is \<open>(nonce, buffer, sentAt, acked)\<close>.
\<close>

record 'b SentPacket =
  nonce :: nat
  buffer :: 'b
  sentAt :: int
  acked :: bool

record ClientMod =
  netId :: nat
  modId :: string
  modVersion :: string
  networkSide :: ModPluginSide

text \<open>
  The fields of a \<open>Connection\<close> that the worker reads or writes (user name, language
  and client version, which only the listener of the hello packet uses, are left out).
  \<open>mods\<close> is a \<open>Map\<close> from mod id to mod, in insertion order. \<open>room\<close> is the code of
  the room the connection is in. \<open>incrNonce\<close> is the counter behind \<open>getNextNonce\<close>.
\<close>

record 'b Connection =
  rinfo :: remote
  clientId :: nat
  hasIdentified :: bool
  usingReactor :: bool
  numMods :: nat
  mods :: "(string \<times> ClientMod) list"
  lastNonce :: nat
  incrNonce :: nat
  sentPackets :: "'b SentPacket list"
  receivedPackets :: "nat list"
  roundTripPing :: int
  sentDisconnect :: bool
  room :: "nat option"

datatype GameState = NotStarted | Started | Ended | Destroyed

text \<open>
  A room, as far as the worker looks into it: \<open>members\<close> is \<open>room.connections\<close>, a
  \<open>Map\<close> from client id to connection; \<open>hostid\<close> is \<open>0\<close> while there is no host;
  \<open>bans\<close> holds addresses of connections.
\<close>

record Room =
  hostid :: nat
  members :: "(nat \<times> nat) list"
  bans :: "remote list"
  state :: GameState
  maxPlayers :: nat

text \<open>
  The worker. Connections are objects: \<open>heap\<close> holds every \<open>Connection\<close> ever
  created, and a connection is referred to by its position there, so that a connection
  removed from the map \<open>connections\<close> is still the object a running listener works on.
  \<open>connections\<close> and \<open>rooms\<close> are \<open>Map\<close>s in insertion order. \<open>socket\<close> lists the
  datagrams given to \<open>socket.send\<close>, oldest first; \<open>left\<close> lists the \<open>ClientLeave\<close>
  events emitted (connection and room code).
\<close>

record 'b Worker =
  heap :: "'b Connection list"
  connections :: "(remote \<times> nat) list"
  lastClientId :: nat
  rooms :: "(nat \<times> Room) list"
  socket :: "(remote \<times> 'b) list"
  left :: "(nat \<times> nat) list"

text \<open>\<open>config.reactor\<close>: \<open>false\<close>, \<open>true\<close> or an object; an entry of its \<open>mods\<close> table likewise.\<close>

datatype ModConfig = ModFlag bool | ModObject "string option" bool bool

record ReactorObject =
  mods_table :: "(string \<times> ModConfig) list"
  allowExtraMods :: bool
  requireHostMods :: bool
  blockClientSideOnly :: bool
  allowNormalClients :: bool

datatype ReactorConfig = ReactorFlag bool | ReactorObj ReactorObject

text \<open>
  The parameters of the model:
  \<^item> \<open>serialize\<close>: the bytes that \<open>HazelWriter\<close> (package @skeldjs/util) writes for a
    packet, tag byte included;
  \<^item> \<open>root_listener\<close>, \<open>child_listener\<close>: the listeners of the worker that are not
    embedded, for a hello packet and for an \<open>OtherMessage\<close>;
  \<^item> \<open>room_decoder\<close>: what the room's own decoder does to the room with a game-control
    message of its host;
  \<^item> \<open>before_join\<close>: the outcome of the \<open>WorkerBeforeJoinEvent\<close> given to the plugins,
    for a connection, a code and the room found: \<open>canceled\<close> and the code of
    \<open>alteredRoom\<close>;
  \<^item> \<open>minimatch\<close>: the package of that name, for a version and a pattern;
  \<^item> \<open>reactor\<close>: \<open>config.reactor\<close>.
\<close>

record 'b externals =
  serialize :: "root_packet \<Rightarrow> 'b"
  root_listener :: "root_packet \<Rightarrow> nat \<Rightarrow> 'b Worker \<Rightarrow> 'b Worker"
  child_listener :: "message \<Rightarrow> nat \<Rightarrow> 'b Worker \<Rightarrow> 'b Worker"
  room_decoder :: "message \<Rightarrow> nat \<Rightarrow> Room \<Rightarrow> Room"
  before_join :: "nat \<Rightarrow> nat \<Rightarrow> nat option \<Rightarrow> 'b Worker \<Rightarrow> bool \<times> nat option"
  minimatch :: "string \<Rightarrow> string \<Rightarrow> bool"
  reactor :: ReactorConfig

text \<open>Assignment to the fields of the connection object \<open>r\<close>.\<close>

definition upd :: "nat \<Rightarrow> ('b Connection \<Rightarrow> 'b Connection) \<Rightarrow> 'b Worker \<Rightarrow> 'b Worker" where
  "upd r f w = w\<lparr> heap := (heap w)[r := f (heap w ! r)] \<rparr>"

subsection \<open>Connections\<close>

text \<open>
  Modelled from the spec: the constructor of \<open>Connection\<close> (Connection.ts is not among
  the sources). By the data model of the spec a new connection has its address and
  client id, empty deques, no mods, no room and no flag set; the counters start at \<open>0\<close>.
\<close>

definition new_Connection :: "remote \<Rightarrow> nat \<Rightarrow> 'b Connection" where
  "new_Connection ri clientid =
     \<lparr> rinfo = ri, clientId = clientid, hasIdentified = False, usingReactor = False,
       numMods = 0, mods = [], lastNonce = 0, incrNonce = 0, sentPackets = [],
       receivedPackets = [], roundTripPing = 0, sentDisconnect = False, room = None \<rparr>"

text \<open>
  Modelled from the spec: \<open>Connection.getNextNonce\<close> (Connection.ts), the next nonce
  of the connection, starting at 1. The result is the nonce and the new state.
\<close>

definition getNextNonce :: "nat \<Rightarrow> 'b Worker \<Rightarrow> nat \<times> 'b Worker" where
  "getNextNonce r w =
     (Suc (incrNonce (heap w ! r)), upd r (\<lambda>c. c\<lparr> incrNonce := Suc (incrNonce c) \<rparr>) w)"

text \<open>\<open>getNextClientId\<close> and \<open>getOrCreateConnection\<close>; the result is the connection and the new state.\<close>

definition getNextClientId :: "'b Worker \<Rightarrow> nat \<times> 'b Worker" where
  "getNextClientId w = (Suc (lastClientId w), w\<lparr> lastClientId := Suc (lastClientId w) \<rparr>)"

definition getOrCreateConnection :: "remote \<Rightarrow> 'b Worker \<Rightarrow> nat \<times> 'b Worker" where
  "getOrCreateConnection ri w =
     (case map_of (connections w) ri of
        Some cached \<Rightarrow> (cached, w)
      | None \<Rightarrow>
          (case getNextClientId w of
             (clientid, w1) \<Rightarrow>
               (length (heap w1),
                w1\<lparr> heap := heap w1 @ [new_Connection ri clientid],
                    connections := AList.update ri (length (heap w1)) (connections w1) \<rparr>)))"

definition removeConnection :: "nat \<Rightarrow> 'b Worker \<Rightarrow> 'b Worker" where
  "removeConnection r w = w\<lparr> connections := AList.delete (rinfo (heap w ! r)) (connections w) \<rparr>"

definition private_sendPacket :: "remote \<Rightarrow> 'b \<Rightarrow> 'b Worker \<Rightarrow> 'b Worker" where
  "private_sendPacket rem buf w = w\<lparr> socket := socket w @ [(rem, buf)] \<rparr>"

text \<open>
  \<open>Worker.sendPacket\<close>. The listeners call \<open>Connection.sendPacket(packet)\<close>, which
  is not among the sources; it is taken to be \<open>worker.sendPacket(connection, packet)\<close>.
  A failure of \<open>socket.send\<close> is not modelled.
\<close>

definition sendPacket :: "'b externals \<Rightarrow> int \<Rightarrow> nat \<Rightarrow> root_packet \<Rightarrow> 'b Worker \<Rightarrow> 'b Worker" where
  "sendPacket X now r packet w =
     (let buf = serialize X packet in
      case nonce_of packet of
        Some n \<Rightarrow>
          if \<not> is_AcknowledgePacket packet
          then private_sendPacket (rinfo (heap w ! r)) buf
                 (upd r (\<lambda>c. c\<lparr> sentPackets :=
                    take 8 (\<lparr> nonce = n, buffer = buf, sentAt = now, acked = False \<rparr>
                            # sentPackets c) \<rparr>) w)
          else private_sendPacket (rinfo (heap w ! r)) buf w
      | None \<Rightarrow> private_sendPacket (rinfo (heap w ! r)) buf w)"

text \<open>
  Modelled from the spec: \<open>Connection.disconnect\<close> (Connection.ts). A disconnect sends
  a Disconnect packet with the reason, sets the flag "disconnect initiated", emits a
  \<open>ClientLeave\<close> event if the connection is in a room, and removes the connection from
  the registry.
\<close>

definition disconnect :: "'b externals \<Rightarrow> int \<Rightarrow> reason \<Rightarrow> nat \<Rightarrow> 'b Worker \<Rightarrow> 'b Worker" where
  "disconnect X now why r w =
     (let w1 = sendPacket X now r (DisconnectPacket why) w;
          w2 = upd r (\<lambda>c. c\<lparr> sentDisconnect := True \<rparr>) w1;
          w3 = (case room (heap w2 ! r) of
                  None \<Rightarrow> w2
                | Some code \<Rightarrow> w2\<lparr> left := left w2 @ [(r, code)] \<rparr>)
      in removeConnection r w3)"

subsection \<open>Reliable packets: sending, acknowledging, the ping interval\<close>

text \<open>
  The listener on \<open>ReliablePacket\<close>, \<open>ModdedHelloPacket\<close> and \<open>PingPacket\<close>: the
  nonce is put in front of \<open>receivedPackets\<close>, which is cut to 8, and acknowledged.
\<close>

definition reliable_listener :: "'b externals \<Rightarrow> int \<Rightarrow> nat \<Rightarrow> nat \<Rightarrow> 'b Worker \<Rightarrow> 'b Worker" where
  "reliable_listener X now n r w =
     sendPacket X now r (AcknowledgePacket n [])
       (upd r (\<lambda>c. c\<lparr> receivedPackets := take 8 (n # receivedPackets c) \<rparr>) w)"

text \<open>
  The listener on \<open>AcknowledgePacket\<close>: the first sent packet with the nonce is
  marked; \<open>ack_first\<close> is the loop, its result \<open>None\<close> when no packet has the nonce.
\<close>

fun ack_first :: "nat \<Rightarrow> 'b SentPacket list \<Rightarrow> ('b SentPacket list \<times> int) option" where
  "ack_first n [] = None"
| "ack_first n (sentPacket # ps) =
     (if nonce sentPacket = n then Some (sentPacket\<lparr> acked := True \<rparr> # ps, sentAt sentPacket)
      else (case ack_first n ps of
              None \<Rightarrow> None
            | Some (ps', t) \<Rightarrow> Some (sentPacket # ps', t)))"

definition acknowledge_listener :: "int \<Rightarrow> nat \<Rightarrow> nat \<Rightarrow> 'b Worker \<Rightarrow> 'b Worker" where
  "acknowledge_listener now n r w =
     (case ack_first n (sentPackets (heap w ! r)) of
        None \<Rightarrow> w
      | Some (ps', t) \<Rightarrow> upd r (\<lambda>c. c\<lparr> sentPackets := ps', roundTripPing := now - t \<rparr>) w)"

text \<open>The listener on \<open>DisconnectPacket\<close>.\<close>

definition disconnect_listener :: "'b externals \<Rightarrow> int \<Rightarrow> nat \<Rightarrow> 'b Worker \<Rightarrow> 'b Worker" where
  "disconnect_listener X now r w =
     removeConnection r
       (if \<not> sentDisconnect (heap w ! r) then disconnect X now NoReason r w else w)"

text \<open>
  The ping interval, for one connection. \<open>resend\<close> is the body of the inner loop for
  one sent packet: the datagrams it sends and the packet afterwards.
\<close>

definition is_stale :: "int \<Rightarrow> 'b SentPacket \<Rightarrow> bool" where
  "is_stale now sent = (\<not> acked sent \<and> now - sentAt sent > 500)"

definition resend :: "int \<Rightarrow> 'b SentPacket \<Rightarrow> 'b SentPacket" where
  "resend now sent = (if is_stale now sent then sent\<lparr> sentAt := now \<rparr> else sent)"

definition resend_all :: "int \<Rightarrow> nat \<Rightarrow> 'b Worker \<Rightarrow> 'b Worker" where
  "resend_all now r w =
     (let c = heap w ! r in
      (upd r (\<lambda>c. c\<lparr> sentPackets := map (resend now) (sentPackets c) \<rparr>) w)
        \<lparr> socket := socket w
             @ map (\<lambda>sent. (rinfo c, buffer sent)) (filter (is_stale now) (sentPackets c)) \<rparr>)"

definition presumed_dead :: "'b Connection \<Rightarrow> bool" where
  "presumed_dead c =
     (length (sentPackets c) = 8 \<and> list_all (\<lambda>packet. \<not> acked packet) (sentPackets c))"

definition ping_connection :: "'b externals \<Rightarrow> int \<Rightarrow> nat \<Rightarrow> 'b Worker \<Rightarrow> 'b Worker" where
  "ping_connection X now r w =
     (if presumed_dead (heap w ! r) then disconnect X now NoReason r w
      else
        (case getNextNonce r w of
           (n, w1) \<Rightarrow> resend_all now r (sendPacket X now r (PingPacket n) w1)))"

text \<open>
  One run of the interval: the connections registered when it starts, in the order of
  the map (a disconnect removes only the entry whose turn it is).
\<close>

definition ping_interval :: "'b externals \<Rightarrow> int \<Rightarrow> 'b Worker \<Rightarrow> 'b Worker" where
  "ping_interval X now w = fold (ping_connection X now) (map snd (connections w)) w"

subsection \<open>Rooms\<close>

text \<open>
  Modelled from the spec: \<open>Connection.getPlayer\<close> (Connection.ts is not among the
  sources). A connection has a player when it is a member of the room it refers to;
  the result is the code of that room and the room, \<open>None\<close> for \<open>undefined\<close>.
\<close>

definition getPlayer :: "nat \<Rightarrow> 'b Worker \<Rightarrow> (nat \<times> Room) option" where
  "getPlayer r w =
     (case room (heap w ! r) of
        None \<Rightarrow> None
      | Some code \<Rightarrow>
          (case map_of (rooms w) code of
             None \<Rightarrow> None
           | Some rm \<Rightarrow>
               if map_of (members rm) (clientId (heap w ! r)) = Some r then Some (code, rm)
               else None))"

text \<open>
  Modelled from the spec: \<open>player.ishost\<close> (the player class is not among the sources).
  The player of a connection is the host when the host id of the room is the client id
  of the connection.
\<close>

definition ishost :: "nat \<Rightarrow> Room \<Rightarrow> 'b Worker \<Rightarrow> bool" where
  "ishost r rm w = (hostid rm = clientId (heap w ! r))"

text \<open>
  Modelled from the spec: sending root messages to one connection reliably, as the
  room classes and \<open>Connection.joinError\<close> do (neither is among the sources): the
  messages go out in a Reliable packet with the next nonce of the connection, through
  \<open>sendPacket\<close>.
\<close>

definition send_reliable :: "'b externals \<Rightarrow> int \<Rightarrow> message list \<Rightarrow> nat \<Rightarrow> 'b Worker \<Rightarrow> 'b Worker" where
  "send_reliable X now msgs r w =
     (case getNextNonce r w of (n, w1) \<Rightarrow> sendPacket X now r (ReliablePacket n msgs) w1)"

text \<open>
  Modelled from the spec: \<open>room.broadcast\<close> of root messages to the whole room (the
  room classes are not among the sources): every member of the room gets the messages
  in a Reliable packet with a nonce of its own.
\<close>

definition broadcast :: "'b externals \<Rightarrow> int \<Rightarrow> nat \<Rightarrow> message list \<Rightarrow> 'b Worker \<Rightarrow> 'b Worker" where
  "broadcast X now code msgs w =
     (case map_of (rooms w) code of
        None \<Rightarrow> w
      | Some rm \<Rightarrow> fold (send_reliable X now msgs) (map snd (members rm)) w)"

text \<open>The room's own decoder, applied to the room with the code.\<close>

definition decode_in_room :: "'b externals \<Rightarrow> message \<Rightarrow> nat \<Rightarrow> nat \<Rightarrow> 'b Worker \<Rightarrow> 'b Worker" where
  "decode_in_room X msg r code w =
     w\<lparr> rooms := map (\<lambda>(k, rm). if k = code then (k, room_decoder X msg r rm) else (k, rm))
                    (rooms w) \<rparr>"

subsection \<open>The host-only listeners\<close>

text \<open>
  The listeners on \<open>AlterGameMessage\<close>, \<open>StartGameMessage\<close>, \<open>EndGameMessage\<close> and
  \<open>KickPlayerMessage\<close>. The body of the last one behind the check is commented out in
  the source.
\<close>

definition AlterGame_listener ::
  "'b externals \<Rightarrow> int \<Rightarrow> nat \<Rightarrow> nat \<Rightarrow> nat \<Rightarrow> nat \<Rightarrow> 'b Worker \<Rightarrow> 'b Worker" where
  "AlterGame_listener X now code alterTag val r w =
     (case getPlayer r w of
        None \<Rightarrow> w
      | Some (rcode, rm) \<Rightarrow>
          if \<not> ishost r rm w then disconnect X now (Code Hacking) r w
          else broadcast X now rcode [AlterGameMessage rcode alterTag val]
                 (decode_in_room X (AlterGameMessage code alterTag val) r rcode w))"

definition StartGame_listener :: "'b externals \<Rightarrow> int \<Rightarrow> nat \<Rightarrow> nat \<Rightarrow> 'b Worker \<Rightarrow> 'b Worker" where
  "StartGame_listener X now code r w =
     (case getPlayer r w of
        None \<Rightarrow> w
      | Some (rcode, rm) \<Rightarrow>
          if \<not> ishost r rm w then disconnect X now (Code Hacking) r w
          else broadcast X now rcode [StartGameMessage rcode]
                 (decode_in_room X (StartGameMessage code) r rcode w))"

definition EndGame_listener ::
  "'b externals \<Rightarrow> int \<Rightarrow> nat \<Rightarrow> nat \<Rightarrow> bool \<Rightarrow> nat \<Rightarrow> 'b Worker \<Rightarrow> 'b Worker" where
  "EndGame_listener X now code why showAd r w =
     (case getPlayer r w of
        None \<Rightarrow> w
      | Some (rcode, rm) \<Rightarrow>
          if \<not> ishost r rm w then disconnect X now (Code Hacking) r w
          else broadcast X now rcode [EndGameMessage rcode why False]
                 (decode_in_room X (EndGameMessage code why showAd) r rcode w))"

definition KickPlayer_listener :: "'b externals \<Rightarrow> int \<Rightarrow> nat \<Rightarrow> 'b Worker \<Rightarrow> 'b Worker" where
  "KickPlayer_listener X now r w =
     (case getPlayer r w of
        None \<Rightarrow> w
      | Some (rcode, rm) \<Rightarrow>
          if \<not> ishost r rm w then disconnect X now (Code Hacking) r w
          else w)"

subsection \<open>Mods\<close>

text \<open>The listener on \<open>ReactorModDeclarationMessage\<close>.\<close>

definition ModDeclaration_listener ::
  "nat \<Rightarrow> string \<Rightarrow> string \<Rightarrow> ModPluginSide \<Rightarrow> nat \<Rightarrow> 'b Worker \<Rightarrow> 'b Worker" where
  "ModDeclaration_listener nid mid ver side r w =
     (if length (mods (heap w ! r)) \<ge> numMods (heap w ! r) then w
      else upd r (\<lambda>c. c\<lparr> mods := AList.update mid
             \<lparr> netId = nid, modId = mid, modVersion = ver, networkSide = side \<rparr> (mods c) \<rparr>) w)"

text \<open>
  \<open>checkClientMods\<close> returns \<open>true\<close>, \<open>false\<close> or, at one \<open>return\<close> without a
  value, \<open>undefined\<close>: \<open>Some True\<close>, \<open>Some False\<close> and \<open>None\<close>. \<open>check_entries\<close> is
  the loop over the entries of \<open>config.reactor.mods\<close>; its result is \<open>Inl\<close> of the
  value returned from inside the loop, or \<open>Inr\<close> when the loop ends, each with the new
  state.
\<close>

definition version_text :: "ModConfig \<Rightarrow> string" where
  "version_text modConfig =
     (case modConfig of
        ModObject (Some v) _ _ \<Rightarrow> (if v \<noteq> [] then ''v'' @ v else ''any'')
      | _ \<Rightarrow> ''any'')"

fun check_entries ::
  "'b externals \<Rightarrow> int \<Rightarrow> nat \<Rightarrow> (string \<times> ModConfig) list \<Rightarrow> 'b Worker \<Rightarrow>
   (bool option \<times> 'b Worker) + 'b Worker" where
  "check_entries X now r [] w = Inr w"
| "check_entries X now r ((mid, modConfig) # entries) w =
     (case map_of (mods (heap w ! r)) mid of
        None \<Rightarrow>
          (case modConfig of
             ModFlag False \<Rightarrow> Inl (None, w)
           | ModFlag True \<Rightarrow>
               check_entries X now r entries
                 (disconnect X now (Localized missing_required_mod [mid, version_text modConfig]) r w)
           | ModObject v isBanned optional \<Rightarrow>
               if \<not> optional
               then check_entries X now r entries
                      (disconnect X now
                         (Localized missing_required_mod [mid, version_text modConfig]) r w)
               else check_entries X now r entries w)
      | Some clientMod \<Rightarrow>
          (case modConfig of
             ModFlag False \<Rightarrow>
               Inl (Some False, disconnect X now (Localized mod_banned_on_server [mid]) r w)
           | ModFlag True \<Rightarrow> check_entries X now r entries w
           | ModObject v isBanned optional \<Rightarrow>
               if isBanned
               then Inl (Some False, disconnect X now (Localized mod_banned_on_server [mid]) r w)
               else
                 (case v of
                    None \<Rightarrow> check_entries X now r entries w
                  | Some pat \<Rightarrow>
                      if pat \<noteq> [] \<and> \<not> minimatch X (modVersion clientMod) pat
                      then Inl (Some False,
                             disconnect X now
                               (Localized bad_mod_version
                                  [mid, ''v'' @ modVersion clientMod, ''v'' @ pat]) r w)
                      else check_entries X now r entries w)))"

text \<open>
  The loop over the client's mods when extra mods are not allowed: the first mod whose
  entry in the table is missing or \<open>false\<close>.
\<close>

definition unrecognised_mod :: "(string \<times> ModConfig) list \<Rightarrow> (string \<times> ClientMod) list \<Rightarrow> ClientMod option" where
  "unrecognised_mod table ms =
     find (\<lambda>clientMod. map_of table (modId clientMod) = None
                      \<or> map_of table (modId clientMod) = Some (ModFlag False)) (map snd ms)"

definition checkClientMods :: "'b externals \<Rightarrow> int \<Rightarrow> nat \<Rightarrow> 'b Worker \<Rightarrow> bool option \<times> 'b Worker" where
  "checkClientMods X now r w =
     (if \<not> usingReactor (heap w ! r) then (Some True, w)
      else if length (mods (heap w ! r)) < numMods (heap w ! r)
      then (Some False, disconnect X now (Localized havent_received_all_mods []) r w)
      else
        (case reactor X of
           ReactorFlag False \<Rightarrow>
             (Some False, disconnect X now (Localized reactor_not_enabled_on_server []) r w)
         | ReactorFlag True \<Rightarrow> (Some True, w)
         | ReactorObj cfg \<Rightarrow>
             (case check_entries X now r (mods_table cfg) w of
                Inl returned \<Rightarrow> returned
              | Inr w1 \<Rightarrow>
                  if \<not> allowExtraMods cfg
                  then (case unrecognised_mod (mods_table cfg) (mods (heap w1 ! r)) of
                          Some clientMod \<Rightarrow>
                            (Some False,
                             disconnect X now (Localized mod_not_recognised [modId clientMod]) r w1)
                        | None \<Rightarrow> (Some True, w1))
                  else (Some True, w1))))"


subsection \<open>Joining a room\<close>

text \<open>
  Modelled from the spec: \<open>Connection.joinError\<close> (Connection.ts) sends the reason of
  a refused join to the caller and changes nothing else.
\<close>

definition joinError :: "'b externals \<Rightarrow> int \<Rightarrow> reason \<Rightarrow> nat \<Rightarrow> 'b Worker \<Rightarrow> 'b Worker" where
  "joinError X now why r w = send_reliable X now [JoinGameError why] r w"

text \<open>
  Modelled from the spec: \<open>room.handleRemoteJoin\<close> (the room classes are not among
  the sources). The room refuses the join with a join error when it is destroyed, when
  the address is banned, when it is full and when the game has started. Otherwise the
  connection is attached to the room and becomes a member, it becomes the host if
  there is none, the members before it are notified, and it gets the list of them.
\<close>

definition handleRemoteJoin :: "'b externals \<Rightarrow> int \<Rightarrow> nat \<Rightarrow> nat \<Rightarrow> 'b Worker \<Rightarrow> 'b Worker" where
  "handleRemoteJoin X now code r w =
     (case map_of (rooms w) code of
        None \<Rightarrow> w
      | Some rm \<Rightarrow>
          if state rm = Destroyed then joinError X now (Code GameNotFound) r w
          else if rinfo (heap w ! r) \<in> set (bans rm) then joinError X now (Code Banned) r w
          else if length (members rm) \<ge> maxPlayers rm then joinError X now (Code GameFull) r w
          else if state rm = Started then joinError X now (Code GameStarted) r w
          else
            (let cid = clientId (heap w ! r);
                 host = (if hostid rm = 0 then cid else hostid rm);
                 rm' = rm\<lparr> members := AList.update cid r (members rm), hostid := host \<rparr>;
                 w1 = upd r (\<lambda>c. c\<lparr> room := Some code \<rparr>) (w\<lparr> rooms := AList.update code rm' (rooms w) \<rparr>);
                 w2 = fold (send_reliable X now [JoinGameNotify code cid host]) (map snd (members rm)) w1
             in send_reliable X now [JoinedGame code cid host (map fst (members rm))] r w2))"

text \<open>
  The two loops of the listener on \<open>JoinGameMessage\<close> that compare the mods of the
  host and of the joining client; the result is the join error of the first mod that
  does not pass. \<open>block\<close> is the test
  \<^verbatim>\<open>config.reactor === true || config.reactor.blockClientSideOnly\<close>.
\<close>

fun host_mods_error :: "bool \<Rightarrow> (string \<times> ClientMod) list \<Rightarrow> (string \<times> ClientMod) list \<Rightarrow> reason option" where
  "host_mods_error block [] clientMods = None"
| "host_mods_error block ((hostModId, hostMod) # hostMods) clientMods =
     (if networkSide hostMod = Clientside \<and> block then host_mods_error block hostMods clientMods
      else
        (case map_of clientMods hostModId of
           None \<Rightarrow> Some (Localized missing_required_mod [modId hostMod, modVersion hostMod])
         | Some clientMod \<Rightarrow>
             if modVersion clientMod \<noteq> modVersion hostMod
             then Some (Localized bad_mod_version
                          [modId clientMod, modVersion clientMod, modVersion hostMod])
             else host_mods_error block hostMods clientMods))"

fun client_mods_error :: "bool \<Rightarrow> (string \<times> ClientMod) list \<Rightarrow> (string \<times> ClientMod) list \<Rightarrow> reason option" where
  "client_mods_error block [] hostMods = None"
| "client_mods_error block ((clientModId, clientMod) # clientMods) hostMods =
     (if networkSide clientMod = Clientside \<and> block then client_mods_error block clientMods hostMods
      else
        (case map_of hostMods clientModId of
           None \<Rightarrow> Some (Localized mod_not_recognised [modId clientMod])
         | Some hostMod \<Rightarrow> client_mods_error block clientMods hostMods))"

definition requires_host_mods :: "ReactorConfig \<Rightarrow> bool" where
  "requires_host_mods cfg = (case cfg of ReactorFlag b \<Rightarrow> b | ReactorObj obj \<Rightarrow> requireHostMods obj)"

definition blocks_clientside :: "ReactorConfig \<Rightarrow> bool" where
  "blocks_clientside cfg = (case cfg of ReactorFlag b \<Rightarrow> b | ReactorObj obj \<Rightarrow> blockClientSideOnly obj)"

definition host_check :: "'b externals \<Rightarrow> Room \<Rightarrow> nat \<Rightarrow> 'b Worker \<Rightarrow> reason option" where
  "host_check X rm r w =
     (if requires_host_mods (reactor X) \<and> hostid rm \<noteq> 0 then
        (case map_of (members rm) (hostid rm) of
           None \<Rightarrow> None
         | Some h \<Rightarrow>
             let hostConnection = heap w ! h; connection = heap w ! r in
             if usingReactor hostConnection \<and> \<not> usingReactor connection
             then Some (Localized reactor_required_for_room [])
             else if \<not> usingReactor hostConnection \<and> usingReactor connection
             then Some (Localized reactor_not_enabled_for_room [])
             else
               (case host_mods_error (blocks_clientside (reactor X))
                       (mods hostConnection) (mods connection) of
                  Some why \<Rightarrow> Some why
                | None \<Rightarrow>
                    client_mods_error (blocks_clientside (reactor X))
                      (mods connection) (mods hostConnection)))
      else None)"

text \<open>
  The listener on \<open>JoinGameMessage\<close>. \<open>foundRoom\<close> and \<open>alteredRoom\<close> are rooms of
  the map \<open>rooms\<close>, given by their codes.
\<close>

definition JoinGame_listener :: "'b externals \<Rightarrow> int \<Rightarrow> nat \<Rightarrow> nat \<Rightarrow> 'b Worker \<Rightarrow> 'b Worker" where
  "JoinGame_listener X now code r w =
     (if room (heap w ! r) \<noteq> None then w
      else
        (case checkClientMods X now r w of
           (checked, w1) \<Rightarrow>
             if checked \<noteq> Some True then w1
             else
               (case before_join X r code
                       (case map_of (rooms w1) code of None \<Rightarrow> None | Some _ \<Rightarrow> Some code) w1 of
                  (canceled, alteredRoom) \<Rightarrow>
                    if canceled then w1
                    else
                      (case (case alteredRoom of None \<Rightarrow> None | Some acode \<Rightarrow>
                               (case map_of (rooms w1) acode of
                                  None \<Rightarrow> None | Some rm \<Rightarrow> Some (acode, rm))) of
                         None \<Rightarrow> joinError X now (Code GameNotFound) r w1
                       | Some (acode, rm) \<Rightarrow>
                           if rinfo (heap w1 ! r) \<in> set (bans rm)
                           then disconnect X now (Code Banned) r w1
                           else if length (members rm) \<ge> maxPlayers rm
                           then joinError X now (Code GameFull) r w1
                           else if state rm = Started
                           then joinError X now (Code GameStarted) r w1
                           else
                             (case host_check X rm r w1 of
                                Some why \<Rightarrow> joinError X now why r w1
                              | None \<Rightarrow> handleRemoteJoin X now acode r w1)))))"

subsection \<open>Incoming datagrams\<close>

text \<open>
  \<open>decoder.emitDecoded\<close> (package @skeldjs/protocol) calls the listeners of the
  children of a packet, in order, and then those of the packet itself, each class's
  listeners in the order of their registration. \<open>emit_child\<close> and \<open>emit_root\<close> are
  the listeners that \<open>registerPacketHandlers\<close> registers for a child and for a root
  packet; the answers to a join are sent, never received, and have no listener.
\<close>

definition emit_child :: "'b externals \<Rightarrow> int \<Rightarrow> message \<Rightarrow> nat \<Rightarrow> 'b Worker \<Rightarrow> 'b Worker" where
  "emit_child X now msg r w =
     (case msg of
        AlterGameMessage code alterTag val \<Rightarrow> AlterGame_listener X now code alterTag val r w
      | StartGameMessage code \<Rightarrow> StartGame_listener X now code r w
      | EndGameMessage code why showAd \<Rightarrow> EndGame_listener X now code why showAd r w
      | KickPlayerMessage code cid isBanned \<Rightarrow> KickPlayer_listener X now r w
      | JoinGameMessage code \<Rightarrow> JoinGame_listener X now code r w
      | ReactorModDeclaration nid mid ver side \<Rightarrow> ModDeclaration_listener nid mid ver side r w
      | JoinGameError why \<Rightarrow> w
      | JoinGameNotify code cid host \<Rightarrow> w
      | JoinedGame code cid host others \<Rightarrow> w
      | OtherMessage tag \<Rightarrow> child_listener X msg r w)"

definition emit_root :: "'b externals \<Rightarrow> int \<Rightarrow> root_packet \<Rightarrow> nat \<Rightarrow> 'b Worker \<Rightarrow> 'b Worker" where
  "emit_root X now packet r w =
     (case packet of
        UnreliablePacket children \<Rightarrow> w
      | ReliablePacket n children \<Rightarrow> reliable_listener X now n r w
      | ModdedHelloPacket n hello \<Rightarrow> root_listener X packet r (reliable_listener X now n r w)
      | DisconnectPacket why \<Rightarrow> disconnect_listener X now r w
      | AcknowledgePacket n missing \<Rightarrow> acknowledge_listener now n r w
      | PingPacket n \<Rightarrow> reliable_listener X now n r w)"

fun children_of :: "root_packet \<Rightarrow> message list" where
  "children_of (UnreliablePacket children) = children"
| "children_of (ReliablePacket n children) = children"
| "children_of _ = []"

definition emitDecoded :: "'b externals \<Rightarrow> int \<Rightarrow> root_packet \<Rightarrow> nat \<Rightarrow> 'b Worker \<Rightarrow> 'b Worker" where
  "emitDecoded X now packet r w =
     emit_root X now packet r (fold (\<lambda>msg. emit_child X now msg r) (children_of packet) w)"

text \<open>
  \<open>handleMessage\<close>, for a datagram \<open>buf\<close> from \<open>ri\<close> on which \<open>decoder.parse\<close>
  gives \<open>parsed\<close>. \<open>tracked_nonce\<close> is the nonce under the test
  \<^verbatim>\<open>parsedReliable.nonce !== undefined && !(parsedPacket instanceof AcknowledgePacket)\<close>.
\<close>

definition tracked_nonce :: "root_packet \<Rightarrow> nat option" where
  "tracked_nonce packet = (if is_AcknowledgePacket packet then None else nonce_of packet)"

definition handleMessage ::
  "'b externals \<Rightarrow> int \<Rightarrow> byte list \<Rightarrow> parse_result \<Rightarrow> remote \<Rightarrow> 'b Worker \<Rightarrow> 'b Worker" where
  "handleMessage X now buf parsed ri w =
     (case parsed of
        Throws \<Rightarrow> snd (getOrCreateConnection ri w)
      | Null \<Rightarrow> snd (getOrCreateConnection ri w)
      | Parsed parsedPacket \<Rightarrow>
          (case map_of (connections w) ri of
             Some cachedConnection \<Rightarrow>
               (case tracked_nonce parsedPacket of
                  Some n \<Rightarrow>
                    if n \<le> lastNonce (heap w ! cachedConnection) \<and> byte_at buf 5 \<noteq> Some 0xff
                    then w
                    else emitDecoded X now parsedPacket cachedConnection
                           (upd cachedConnection (\<lambda>c. c\<lparr> lastNonce := n \<rparr>) w)
                | None \<Rightarrow> emitDecoded X now parsedPacket cachedConnection w)
           | None \<Rightarrow>
               if \<not> is_ModdedHelloPacket parsedPacket then w
               else
                 (case getOrCreateConnection ri w of
                    (connection, w1) \<Rightarrow>
                      emitDecoded X now parsedPacket connection
                        (case nonce_of parsedPacket of
                           Some n \<Rightarrow> upd connection (\<lambda>c. c\<lparr> lastNonce := n \<rparr>) w1
                         | None \<Rightarrow> w1))))"

text \<open>A sequence of datagrams, each with the time of its arrival.\<close>

fun handleMessages ::
  "'b externals \<Rightarrow> (int \<times> byte list \<times> parse_result \<times> remote) list \<Rightarrow> 'b Worker \<Rightarrow> 'b Worker" where
  "handleMessages X [] w = w"
| "handleMessages X ((now, buf, parsed, ri) # ds) w =
     handleMessages X ds (handleMessage X now buf parsed ri w)"

text \<open>A sequence of calls of \<open>sendPacket\<close> for one connection, each with its time.\<close>

fun sendPackets :: "'b externals \<Rightarrow> nat \<Rightarrow> (int \<times> root_packet) list \<Rightarrow> 'b Worker \<Rightarrow> 'b Worker" where
  "sendPackets X r [] w = w"
| "sendPackets X r ((now, packet) # ps) w = sendPackets X r ps (sendPacket X now r packet w)"


section \<open>Notions used in the statements\<close>

subsection \<open>Usage strings\<close>

text \<open>
  A match of the parameter expression: an opening bracket, text without the closing
  bracket of its kind, and that closing bracket.
\<close>

definition bracketed :: "string \<Rightarrow> bool" where
  "bracketed m = (\<exists>inner. (m = CHR ''['' # inner @ '']'' \<and> CHR '']'' \<notin> set inner)
                       \<or> (m = CHR ''<'' # inner @ ''>'' \<and> CHR ''>'' \<notin> set inner))"

subsection \<open>The in-flight deque\<close>

text \<open>
  What a sent packet contributes to the in-flight deque, in the words of the
  specification: a packet that carries a nonce is tracked with its bytes and the time
  it was sent, unacknowledged; an Acknowledge packet, and a packet without a nonce, is
  not tracked. \<open>in_flight\<close> lists the contributions of a sequence of calls, oldest first.
\<close>

fun entry_of :: "'b externals \<Rightarrow> int \<Rightarrow> root_packet \<Rightarrow> 'b SentPacket list" where
  "entry_of X now (ReliablePacket n cs) =
     [\<lparr> nonce = n, buffer = serialize X (ReliablePacket n cs), sentAt = now, acked = False \<rparr>]"
| "entry_of X now (ModdedHelloPacket n h) =
     [\<lparr> nonce = n, buffer = serialize X (ModdedHelloPacket n h), sentAt = now, acked = False \<rparr>]"
| "entry_of X now (PingPacket n) =
     [\<lparr> nonce = n, buffer = serialize X (PingPacket n), sentAt = now, acked = False \<rparr>]"
| "entry_of X now (AcknowledgePacket n missing) = []"
| "entry_of X now (DisconnectPacket why) = []"
| "entry_of X now (UnreliablePacket cs) = []"

definition in_flight :: "'b externals \<Rightarrow> (int \<times> root_packet) list \<Rightarrow> 'b SentPacket list" where
  "in_flight X calls = concat (map (\<lambda>call. entry_of X (fst call) (snd call)) calls)"

subsection \<open>The ping interval\<close>

text \<open>
  The entry of the Ping that the interval sends to a connection, and the connection
  after its turn in the interval: presumed dead, it is disconnected and nothing else
  happens to it; otherwise the Ping is put in front of the deque, which is cut to 8,
  and every stale packet then in the deque gets the current time.
\<close>

definition ping_entry :: "'b externals \<Rightarrow> int \<Rightarrow> 'b Connection \<Rightarrow> 'b SentPacket" where
  "ping_entry X now c =
     \<lparr> nonce = Suc (incrNonce c), buffer = serialize X (PingPacket (Suc (incrNonce c))),
       sentAt = now, acked = False \<rparr>"

definition after_ping :: "'b externals \<Rightarrow> int \<Rightarrow> 'b Connection \<Rightarrow> 'b Connection" where
  "after_ping X now c =
     (if presumed_dead c then c\<lparr> sentDisconnect := True \<rparr>
      else c\<lparr> incrNonce := Suc (incrNonce c),
             sentPackets := map (resend now) (take 8 (ping_entry X now c # sentPackets c)) \<rparr>)"

subsection \<open>What a listener leaves alone\<close>

text \<open>
  \<open>frame w w'\<close>: from \<open>w\<close> to \<open>w'\<close> no connection object is created, none has its
  \<open>lastNonce\<close> changed, and the registry has at most lost entries. Every listener of
  the worker is of this kind; \<open>framed X\<close> asks it of the listeners that are parameters.
\<close>

definition nonces :: "'b Worker \<Rightarrow> nat list" where
  "nonces w = map lastNonce (heap w)"

definition frame :: "'b Worker \<Rightarrow> 'b Worker \<Rightarrow> bool" where
  "frame w w' =
     (nonces w' = nonces w \<and>
      (\<forall>ri. map_of (connections w') ri = None
            \<or> map_of (connections w') ri = map_of (connections w) ri))"

definition framed :: "'b externals \<Rightarrow> bool" where
  "framed X =
     (\<forall>packet msg r w. frame w (root_listener X packet r w) \<and> frame w (child_listener X msg r w))"

named_theorems frame_intros

subsection \<open>An environment and states for the scenarios\<close>

text \<open>
  The scenarios below run the worker in this environment: a buffer is represented by
  the packet it encodes, no plugin listens (a join is neither cancelled nor redirected,
  a room's decoder and the listeners that are not embedded change nothing), and a
  version pattern matches the version equal to it. \<open>default_reactor\<close> is the
  \<open>reactor\<close> entry of \<open>createDefaultConfig\<close>; \<open>requires_modA\<close> is the same with the
  mod policy \<open>{modA: true}\<close>.
\<close>

definition plain :: "ReactorConfig \<Rightarrow> root_packet externals" where
  "plain cfg =
     \<lparr> serialize = (\<lambda>packet. packet),
       root_listener = (\<lambda>packet r w. w),
       child_listener = (\<lambda>msg r w. w),
       room_decoder = (\<lambda>msg r rm. rm),
       before_join = (\<lambda>r code foundRoom w. (False, foundRoom)),
       minimatch = (\<lambda>version pat. version = pat),
       reactor = cfg \<rparr>"

definition default_reactor :: ReactorConfig where
  "default_reactor =
     ReactorObj \<lparr> mods_table = [], allowExtraMods = True, requireHostMods = True,
                  blockClientSideOnly = True, allowNormalClients = True \<rparr>"

definition requires_modA :: ReactorConfig where
  "requires_modA =
     ReactorObj \<lparr> mods_table = [(''modA'', ModFlag True)], allowExtraMods = True,
                  requireHostMods = True, blockClientSideOnly = True,
                  allowNormalClients = True \<rparr>"

text \<open>
  A worker with no connection and no room; a client that has said hello; the worker
  with one connection; and two clients in room 7, Alice its host and Bob a member.
\<close>

definition fresh_worker :: "root_packet Worker" where
  "fresh_worker =
     \<lparr> heap = [], connections = [], lastClientId = 0, rooms = [], socket = [], left = [] \<rparr>"

definition client :: "remote \<Rightarrow> nat \<Rightarrow> root_packet Connection" where
  "client ri clientid = (new_Connection ri clientid)\<lparr> hasIdentified := True \<rparr>"

definition solo :: "root_packet Connection \<Rightarrow> root_packet Worker" where
  "solo c = fresh_worker\<lparr> heap := [c], connections := [(rinfo c, 0)], lastClientId := clientId c \<rparr>"

definition alice :: remote where
  "alice = (''10.0.0.1'', 5000)"

definition bob :: remote where
  "bob = (''10.0.0.2'', 6000)"

definition lobby :: "root_packet Worker" where
  "lobby =
     fresh_worker\<lparr>
       heap := [(client alice 1)\<lparr> room := Some 7 \<rparr>, (client bob 2)\<lparr> room := Some 7 \<rparr>],
       connections := [(alice, 0), (bob, 1)],
       lastClientId := 2,
       rooms := [(7, \<lparr> hostid = 1, members = [(1, 0), (2, 1)], bans = [],
                       state = NotStarted, maxPlayers = 10 \<rparr>)] \<rparr>"

text \<open>
  A connection with a full in-flight deque, nonces 8 down to 1, all sent at time 0,
  of which only the newest is acknowledged; and the same connection with none
  acknowledged.
\<close>

definition busy_client :: "root_packet Connection" where
  "busy_client =
     (client alice 1)\<lparr>
       incrNonce := 8,
       sentPackets := map (\<lambda>k. \<lparr> nonce = k, buffer = ReliablePacket k [], sentAt = 0,
                                  acked = (k = 8) \<rparr>) [8, 7, 6, 5, 4, 3, 2, 1] \<rparr>"

definition silent_client :: "root_packet Connection" where
  "silent_client =
     busy_client\<lparr> sentPackets := map (\<lambda>sent. sent\<lparr> acked := False \<rparr>) (sentPackets busy_client) \<rparr>"

text \<open>
  The datagrams of two Reliable packets whose first child is the mod declaration of
  \<open>modA\<close>, version 1.0.0, net id 0, for both sides: one with nonce 0 that carries the
  declaration alone, and one with nonce 3 that carries JoinGame(7) after it. A Reliable
  packet is its tag 1 and its nonce in two bytes, big-endian; each child is the length of
  its payload in two bytes, little-endian, its tag and its payload. The tag of a mod
  declaration is \<open>0xff\<close>, and its payload is the message type 1, the net id, the mod
  id and the version, each behind its length, and the side. So the tag of a first child
  lies at offset 5. \<open>reactor_client\<close> is a client of the mod framework that has
  announced one mod and whose last nonce is 5.
\<close>

definition mod_declaration_bytes :: "byte list" where
  "mod_declaration_bytes =
     [14, 0, 0xff, 1, 0, 4, 0x6d, 0x6f, 0x64, 0x41, 5, 0x31, 0x2e, 0x30, 0x2e, 0x30, 0]"

definition declaration_datagram :: "byte list" where
  "declaration_datagram = [1, 0, 0] @ mod_declaration_bytes"

definition declaration_join_datagram :: "byte list" where
  "declaration_join_datagram = [1, 0, 3] @ mod_declaration_bytes @ [4, 0, 1, 7, 0, 0, 0]"

definition reactor_client :: "root_packet Connection" where
  "reactor_client = (client alice 1)\<lparr> lastNonce := 5, usingReactor := True, numMods := 1 \<rparr>"

section \<open>Properties of the chat commands\<close>

subsection \<open>Tokens\<close>





lemma update_absent: "map_of al k = None \<Longrightarrow> AList.update k v al = al @ [(k, v)]"
  by (induction al) (auto split: if_splits)




subsection \<open>Usage strings\<close>

lemma index_of_Some:
  "index_of c s = Some n \<Longrightarrow> n < length s \<and> c \<notin> set (take n s)"
  by (induction s arbitrary: n) (auto split: if_splits option.splits)

lemma index_of_append:
  "c \<notin> set inner \<Longrightarrow> index_of c (inner @ c # rest) = Some (length inner)"
  by (induction inner) auto

lemma matchParams_bracketed: "list_all bracketed (matchParams s)"
proof (induction s rule: matchParams.induct)
  case 1
  then show ?case by simp
next
  case (2 c cs)
  then show ?case
    by (auto simp: bracketed_def split: option.splits dest: index_of_Some)
qed

lemma matchParams_skip:
  "list_all (\<lambda>c. c \<noteq> CHR ''['' \<and> c \<noteq> CHR ''<'') pre \<Longrightarrow> matchParams (pre @ s) = matchParams s"
  by (induction pre) auto

lemma matchParams_one:
  "bracketed m \<Longrightarrow> matchParams (m @ rest) = m # matchParams rest"
  by (auto simp: bracketed_def index_of_append)

lemma matchParams_join:
  "list_all bracketed ms \<Longrightarrow> matchParams (join '' '' ms) = ms"
proof (induction ms)
  case Nil
  then show ?case by simp
next
  case (Cons x ys)
  show ?case
  proof (cases ys)
    case Nil
    then show ?thesis using Cons.prems matchParams_one [of x "[]"] by simp
  next
    case (Cons y zs)
    have "matchParams (x @ '' '' @ join '' '' (y # zs)) = x # matchParams ('' '' @ join '' '' (y # zs))"
      using Cons.prems by (intro matchParams_one) simp
    then show ?thesis using Cons Cons.IH Cons.prems by simp
  qed
qed

text \<open>
  A parameter that is not a rest parameter is rendered as the very text it was parsed
  from.
\<close>

lemma parse_params_render:
  "parse_params ms w = Inr ps \<Longrightarrow> list_all bracketed ms \<Longrightarrow> list_all (\<lambda>p. \<not> isRest p) ps \<Longrightarrow>
   map render_param ps = ms"
proof (induction ms arbitrary: w ps)
  case Nil
  then show ?case by simp
next
  case (Cons m ms)
  from Cons.prems(1) obtain ps' where
    ps': "parse_params ms (w \<or> startsWith m ''['') = Inr ps'" and
    ps: "ps = \<lparr> isRest = endsWith (substr m 1 (length m - 2)) ''...'',
                 required = startsWith m ''<'',
                 name = (if endsWith (substr m 1 (length m - 2)) ''...''
                         then substr (substr m 1 (length m - 2)) 0
                                (length (substr m 1 (length m - 2)) - 3)
                         else substr m 1 (length m - 2)) \<rparr> # ps'"
    by (auto simp: Let_def split: if_splits sum.splits)
  have tl: "map render_param ps' = ms"
    using Cons.IH [OF ps'] Cons.prems ps by simp
  have norest: "\<not> endsWith (substr m 1 (length m - 2)) ''...''"
    using Cons.prems(3) ps by simp
  have "bracketed m" using Cons.prems(2) by simp
  then have "render_param (hd ps) = m"
    using norest ps by (auto simp: bracketed_def render_param_def startsWith_def substr_def)
  then show ?case using tl ps by simp
qed

lemma set_trim: "set (trim s) \<subseteq> set s"
  by (auto simp: trim_def dest!: set_dropWhileD)

lemma trim_last: "trim s \<noteq> [] \<Longrightarrow> \<not> is_space (last (trim s))"
  unfolding trim_def by (simp add: last_rev hd_dropWhile)

lemma trim_slash:
  assumes "n \<noteq> []" "\<not> is_space (last n)"
  shows "trim (''/'' @ n @ '' '') = ''/'' @ n"
proof -
  obtain a as where n: "rev n = a # as" and a: "\<not> is_space a"
    using assms by (cases n rule: rev_cases) auto
  have "\<not> is_space CHR ''/''" by (simp add: is_space_def)
  moreover have "is_space CHR '' ''" by (simp add: is_space_def)
  ultimately have "trim (''/'' @ n @ '' '') = rev (a # as @ ''/'')"
    using n a by (simp add: trim_def)
  also have "\<dots> = ''/'' @ rev (rev n)" unfolding n by simp
  finally show ?thesis by simp
qed

lemma takeWhile_prefix:
  "list_all P xs \<Longrightarrow> ys = [] \<or> \<not> P (hd ys) \<Longrightarrow> takeWhile P (xs @ ys) = xs"
  by (induction xs) (auto simp: takeWhile_eq_Nil_iff)

lemma join_bracketed_hd:
  "list_all bracketed ms \<Longrightarrow>
   join '' '' ms = [] \<or> hd (join '' '' ms) = CHR ''['' \<or> hd (join '' '' ms) = CHR ''<''"
proof (cases ms)
  case Nil
  then show ?thesis by simp
next
  case (Cons m ms')
  assume "list_all bracketed ms"
  then have "bracketed m" using Cons by simp
  then show ?thesis using Cons by (cases ms') (auto simp: bracketed_def)
qed

subsection \<open>The claims about chat commands\<close>

text \<open>
  C8, as stated: re-parsing the usage string that \<open>createUsage\<close> renders gives back
  the parameter list of every registered command. It fails for a command with a rest
  parameter: \<open>createUsage\<close> does not render the trailing \<open>...\<close>, so the usage of
  \<open>kick <name> [reason...]\<close> is \<open>/kick <name> [reason]\<close>, whose second parameter is
  no rest parameter.
\<close>

theorem createUsage_rest_counterexample:
  "parse ''kick <name> [reason...]'' ''Kick a player.'' =
     Inr \<lparr> cmd_name = ''kick'',
           params = [\<lparr> isRest = False, required = True, name = ''name'' \<rparr>,
                     \<lparr> isRest = True, required = False, name = ''reason'' \<rparr>],
           description = ''Kick a player.'' \<rparr>
   \<and> createUsage \<lparr> cmd_name = ''kick'',
           params = [\<lparr> isRest = False, required = True, name = ''name'' \<rparr>,
                     \<lparr> isRest = True, required = False, name = ''reason'' \<rparr>],
           description = ''Kick a player.'' \<rparr> = ''/kick <name> [reason]''
   \<and> parse ''/kick <name> [reason]'' ''Kick a player.'' =
     Inr \<lparr> cmd_name = ''/kick'',
           params = [\<lparr> isRest = False, required = True, name = ''name'' \<rparr>,
                     \<lparr> isRest = False, required = False, name = ''reason'' \<rparr>],
           description = ''Kick a player.'' \<rparr>
   \<and> [\<lparr> isRest = False, required = True, name = ''name'' \<rparr>,
      \<lparr> isRest = False, required = False, name = ''reason'' \<rparr>]
     \<noteq> [\<lparr> isRest = False, required = True, name = ''name'' \<rparr>,
        \<lparr> isRest = True, required = False, name = ''reason'' \<rparr>]"
  by (simp add: parse_def matchCmdName_def trim_def is_space_def startsWith_def endsWith_def
      substr_def createUsage_def render_param_def)

text \<open>
  C8, amended: for every registered command (a result of \<open>parse\<close>) none of whose
  parameters is a rest parameter, parsing the rendered usage succeeds and gives the
  command's own parameters, in order, with the same names and \<open>required\<close> and
  \<open>isRest\<close> flags; the command name comes back with the slash that \<open>createUsage\<close>
  puts in front.
\<close>

theorem createUsage_roundtrip:
  assumes "parse usage descr = Inr cmd" and "list_all (\<lambda>p. \<not> isRest p) (params cmd)"
  shows "parse (createUsage cmd) descr = Inr (cmd\<lparr> cmd_name := ''/'' @ cmd_name cmd \<rparr>)"
proof -
  let ?n = "matchCmdName usage"
  let ?ms = "matchParams usage"
  let ?ok = "\<lambda>c. c \<noteq> CHR ''['' \<and> c \<noteq> CHR ''<''"
  from assms(1) have n: "?n \<noteq> []" "\<not> includes_double_space ?n"
    and pp: "parse_params ?ms False = Inr (params cmd)"
    and cmd: "cmd = \<lparr> cmd_name = ?n, params = params cmd, description = descr \<rparr>"
    by (auto simp: parse_def Let_def split: if_splits sum.splits)
  have br: "list_all bracketed ?ms" by (rule matchParams_bracketed)
  have ren: "map render_param (params cmd) = ?ms"
    using parse_params_render [OF pp br assms(2)] .
  have okn: "list_all ?ok ?n"
    using set_trim [of "takeWhile ?ok usage"] set_takeWhileD [of _ ?ok usage]
    unfolding matchCmdName_def list_all_iff by blast
  have usage: "createUsage cmd = (''/'' @ ?n @ '' '') @ join '' '' ?ms"
    using ren cmd unfolding createUsage_def
    by (metis append.assoc RegisteredChatCommand.select_convs(1))
  have pre: "list_all ?ok (''/'' @ ?n @ '' '')" using okn by simp
  have m2: "matchParams (createUsage cmd) = ?ms"
    unfolding usage using matchParams_skip [OF pre] matchParams_join [OF br] by simp
  have lastn: "\<not> is_space (last ?n)"
    using n(1) trim_last unfolding matchCmdName_def by blast
  have "takeWhile ?ok (createUsage cmd) = ''/'' @ ?n @ '' ''"
    unfolding usage using join_bracketed_hd [OF br] by (intro takeWhile_prefix [OF pre]) auto
  then have n2: "matchCmdName (createUsage cmd) = ''/'' @ ?n"
    using trim_slash [OF n(1) lastn] by (simp add: matchCmdName_def)
  have ds: "\<not> includes_double_space (''/'' @ ?n)"
    using n by (cases ?n) auto
  show ?thesis
    using n2 m2 pp ds cmd
    by (simp add: parse_def Let_def)
       (metis RegisteredChatCommand.surjective RegisteredChatCommand.update_convs(1)
          old.unit.exhaust RegisteredChatCommand.select_convs)
qed

theorem createUsage_roundtrip_witness:
  "parse ''help [command]'' ''Get a list of commands.'' =
     Inr \<lparr> cmd_name = ''help'',
           params = [\<lparr> isRest = False, required = False, name = ''command'' \<rparr>],
           description = ''Get a list of commands.'' \<rparr>
   \<and> createUsage \<lparr> cmd_name = ''help'',
           params = [\<lparr> isRest = False, required = False, name = ''command'' \<rparr>],
           description = ''Get a list of commands.'' \<rparr> = ''/help [command]''
   \<and> parse ''/help [command]'' ''Get a list of commands.'' =
     Inr \<lparr> cmd_name = ''/help'',
           params = [\<lparr> isRest = False, required = False, name = ''command'' \<rparr>],
           description = ''Get a list of commands.'' \<rparr>"
proof -
  let ?hcmd = "\<lparr> cmd_name = ''help'',
           params = [\<lparr> isRest = False, required = False, name = ''command'' \<rparr>],
           description = ''Get a list of commands.'' \<rparr>"
  have p: "parse ''help [command]'' ''Get a list of commands.'' = Inr ?hcmd"
    by (simp add: parse_def matchCmdName_def trim_def is_space_def startsWith_def endsWith_def
        substr_def)
  have r: "list_all (\<lambda>p. \<not> isRest p) (params ?hcmd)" by simp
  have u: "createUsage ?hcmd = ''/help [command]''"
    by (simp add: createUsage_def render_param_def)
  show ?thesis using createUsage_roundtrip [OF p r] p u by simp
qed

text \<open>
  C9: with the command registered from the usage \<open>kick <name> [reason...]\<close>, the chat
  message \<open>/kick 'big bob' was being mean\<close> is split into the tokens \<open>kick\<close>,
  \<open>big bob\<close> (the quoted span, one token, quotes removed), \<open>was\<close>, \<open>being\<close>, \<open>mean\<close>;
  the callback is called with \<open>name\<close> bound to \<open>big bob\<close> and the rest parameter
  \<open>reason\<close> bound to \<open>was being mean\<close>.
\<close>

theorem kick_big_bob:
  "registerCommand ''kick <name> [reason...]'' descr [] =
     Inr [(''kick'', \<lparr> cmd_name = ''kick'',
            params = [\<lparr> isRest = False, required = True, name = ''name'' \<rparr>,
                      \<lparr> isRest = True, required = False, name = ''reason'' \<rparr>],
            description = descr \<rparr>)]
   \<and> betterSplitOnSpaces ''kick 'big bob' was being mean'' =
       [''kick'', ''big bob'', ''was'', ''being'', ''mean'']
   \<and> on_player_chat
       [(''kick'', \<lparr> cmd_name = ''kick'',
            params = [\<lparr> isRest = False, required = True, name = ''name'' \<rparr>,
                      \<lparr> isRest = True, required = False, name = ''reason'' \<rparr>],
            description = descr \<rparr>)]
       ''/kick 'big bob' was being mean'' =
     Some (Inr (Invoked
       \<lparr> cmd_name = ''kick'',
         params = [\<lparr> isRest = False, required = True, name = ''name'' \<rparr>,
                   \<lparr> isRest = True, required = False, name = ''reason'' \<rparr>],
         description = descr \<rparr>
       [(''name'', ''big bob''), (''reason'', ''was being mean'')]))"
  by (simp add: registerCommand_def parse_def matchCmdName_def trim_def is_space_def
      startsWith_def endsWith_def substr_def on_player_chat_def parseMessage_def
      betterSplitOnSpaces_def verify_def consume_arg_def)



section \<open>Properties of the worker\<close>

subsection \<open>The frame of the listeners\<close>

lemma heap_upd [simp]: "heap (upd r f w) = (heap w)[r := f (heap w ! r)]"
  and connections_upd [simp]: "connections (upd r f w) = connections w"
  and socket_upd [simp]: "socket (upd r f w) = socket w"
  and rooms_upd [simp]: "rooms (upd r f w) = rooms w"
  and left_upd [simp]: "left (upd r f w) = left w"
  and lastClientId_upd [simp]: "lastClientId (upd r f w) = lastClientId w"
  by (simp_all add: upd_def)

lemma frame_refl [frame_intros]: "frame w w"
  by (simp add: frame_def)

lemma frame_trans: "frame w w1 \<Longrightarrow> frame w1 w2 \<Longrightarrow> frame w w2"
  unfolding frame_def by metis

lemma frame_upd [frame_intros]:
  assumes "frame w0 w" and "\<And>c. lastNonce (f c) = lastNonce c"
  shows "frame w0 (upd r f w)"
proof -
  have "map lastNonce ((heap w)[r := f (heap w ! r)]) = map lastNonce (heap w)"
    by (cases "r < length (heap w)") (simp_all add: map_update assms(2) list_update_same_conv not_less list_update_beyond)
  then show ?thesis using assms(1) by (simp add: frame_def nonces_def)
qed

lemma frame_private_sendPacket [frame_intros]:
  "frame w0 w \<Longrightarrow> frame w0 (private_sendPacket rem buf w)"
  by (simp add: frame_def nonces_def private_sendPacket_def)

lemma frame_removeConnection [frame_intros]:
  "frame w0 w \<Longrightarrow> frame w0 (removeConnection r w)"
  unfolding frame_def nonces_def removeConnection_def
  by (auto simp: AList.delete_conv)

lemma frame_sendPacket [frame_intros]:
  "frame w0 w \<Longrightarrow> frame w0 (sendPacket X now r packet w)"
  unfolding sendPacket_def Let_def
  by (auto intro!: frame_intros split: option.splits)

lemma frame_send_reliable [frame_intros]:
  "frame w0 w \<Longrightarrow> frame w0 (send_reliable X now msgs r w)"
  unfolding send_reliable_def getNextNonce_def
  by (auto intro!: frame_intros)

lemma frame_fold [frame_intros]:
  assumes "\<And>x w. frame w0 w \<Longrightarrow> frame w0 (f x w)" and "frame w0 w"
  shows "frame w0 (fold f xs w)"
  using assms(2) by (induction xs arbitrary: w) (auto intro: assms(1))

lemma frame_left [frame_intros]:
  "frame w0 w \<Longrightarrow> frame w0 (w\<lparr> left := l \<rparr>)"
  by (simp add: frame_def nonces_def)

lemma frame_rooms [frame_intros]:
  "frame w0 w \<Longrightarrow> frame w0 (w\<lparr> rooms := l \<rparr>)"
  by (simp add: frame_def nonces_def)

lemma frame_disconnect [frame_intros]:
  "frame w0 w \<Longrightarrow> frame w0 (disconnect X now why r w)"
  unfolding disconnect_def Let_def
  by (auto intro!: frame_intros split: option.splits)

lemma frame_broadcast [frame_intros]:
  "frame w0 w \<Longrightarrow> frame w0 (broadcast X now code msgs w)"
  unfolding broadcast_def
  by (auto intro!: frame_intros split: option.splits)

lemma frame_decode_in_room [frame_intros]:
  "frame w0 w \<Longrightarrow> frame w0 (decode_in_room X msg r code w)"
  unfolding decode_in_room_def by (auto intro!: frame_intros)

lemma frame_joinError [frame_intros]:
  "frame w0 w \<Longrightarrow> frame w0 (joinError X now why r w)"
  unfolding joinError_def by (auto intro!: frame_intros)

lemma frame_handleRemoteJoin [frame_intros]:
  "frame w0 w \<Longrightarrow> frame w0 (handleRemoteJoin X now code r w)"
  unfolding handleRemoteJoin_def Let_def
  by (auto intro!: frame_intros split: option.splits)

lemma frame_host_only [frame_intros]:
  "frame w0 w \<Longrightarrow> frame w0 (AlterGame_listener X now code alterTag val r w)"
  "frame w0 w \<Longrightarrow> frame w0 (StartGame_listener X now code r w)"
  "frame w0 w \<Longrightarrow> frame w0 (EndGame_listener X now code why showAd r w)"
  "frame w0 w \<Longrightarrow> frame w0 (KickPlayer_listener X now r w)"
  unfolding AlterGame_listener_def StartGame_listener_def EndGame_listener_def
    KickPlayer_listener_def
  by (auto intro!: frame_intros split: option.splits)

lemma frame_ModDeclaration [frame_intros]:
  "frame w0 w \<Longrightarrow> frame w0 (ModDeclaration_listener nid mid ver side r w)"
  unfolding ModDeclaration_listener_def by (auto intro!: frame_intros)

lemma frame_check_entries:
  "frame w0 w \<Longrightarrow>
   frame w0 (case check_entries X now r entries w of Inl (b, w') \<Rightarrow> w' | Inr w' \<Rightarrow> w')"
proof (induction entries arbitrary: w)
  case Nil
  then show ?case by simp
next
  case (Cons e entries)
  obtain mid modConfig where e: "e = (mid, modConfig)" by (cases e)
  show ?case
    unfolding e using Cons.prems
    by (auto intro!: frame_intros Cons.IH
        split: option.splits ModConfig.splits bool.splits)
qed

lemma frame_check_entries_Inl:
  "frame w0 w \<Longrightarrow> check_entries X now r entries w = Inl (b, w') \<Longrightarrow> frame w0 w'"
  using frame_check_entries [of w0 w X now r entries] by simp

lemma frame_check_entries_Inr:
  "frame w0 w \<Longrightarrow> check_entries X now r entries w = Inr w' \<Longrightarrow> frame w0 w'"
  using frame_check_entries [of w0 w X now r entries] by simp

lemma frame_checkClientMods [frame_intros]:
  "frame w0 w \<Longrightarrow> frame w0 (snd (checkClientMods X now r w))"
  unfolding checkClientMods_def
  by (auto intro!: frame_intros
      dest: frame_check_entries_Inl frame_check_entries_Inr
      split: option.splits ReactorConfig.splits bool.splits sum.splits)

lemma frame_JoinGame [frame_intros]:
  assumes "frame w0 w"
  shows "frame w0 (JoinGame_listener X now code r w)"
proof -
  obtain checked w1 where cm: "checkClientMods X now r w = (checked, w1)"
    by (cases "checkClientMods X now r w")
  have f1: "frame w0 w1" using frame_checkClientMods [OF assms, of X now r] cm by simp
  obtain canceled alteredRoom where bj: "before_join X r code
       (case map_of (rooms w1) code of None \<Rightarrow> None | Some _ \<Rightarrow> Some code) w1 = (canceled, alteredRoom)"
    by (cases "before_join X r code
       (case map_of (rooms w1) code of None \<Rightarrow> None | Some _ \<Rightarrow> Some code) w1")
  show ?thesis
    unfolding JoinGame_listener_def cm bj prod.case
    by (intro frame_intros assms f1 | simp only: split: if_splits option.splits prod.splits | intro conjI impI allI)+
qed

lemma frame_reliable_listener [frame_intros]:
  "frame w0 w \<Longrightarrow> frame w0 (reliable_listener X now n r w)"
  unfolding reliable_listener_def by (auto intro!: frame_intros)

lemma frame_acknowledge_listener [frame_intros]:
  "frame w0 w \<Longrightarrow> frame w0 (acknowledge_listener now n r w)"
  unfolding acknowledge_listener_def by (auto intro!: frame_intros split: option.splits)

lemma frame_disconnect_listener [frame_intros]:
  "frame w0 w \<Longrightarrow> frame w0 (disconnect_listener X now r w)"
  unfolding disconnect_listener_def by (auto intro!: frame_intros)

lemma frame_emit_child [frame_intros]:
  "framed X \<Longrightarrow> frame w0 w \<Longrightarrow> frame w0 (emit_child X now msg r w)"
  unfolding emit_child_def framed_def
  by (auto intro!: frame_intros intro: frame_trans split: message.splits)

lemma frame_emit_root [frame_intros]:
  "framed X \<Longrightarrow> frame w0 w \<Longrightarrow> frame w0 (emit_root X now packet r w)"
proof -
  assume X: "framed X" and w: "frame w0 w"
  have "frame w0 (root_listener X packet r (reliable_listener X now n r w))" for n
    using frame_trans [OF frame_reliable_listener [OF w]] X unfolding framed_def by blast
  then show ?thesis
    unfolding emit_root_def using w by (auto intro!: frame_intros split: root_packet.splits)
qed

lemma frame_emitDecoded [frame_intros]:
  "framed X \<Longrightarrow> frame w0 w \<Longrightarrow> frame w0 (emitDecoded X now packet r w)"
  unfolding emitDecoded_def
  by (auto intro!: frame_intros)

subsection \<open>Incoming datagrams\<close>

lemma frame_nth:
  assumes "frame w w'" and "r < length (heap w)"
  shows "r < length (heap w') \<and> lastNonce (heap w' ! r) = lastNonce (heap w ! r)"
proof -
  have eq: "map lastNonce (heap w') = map lastNonce (heap w)"
    using assms(1) by (simp add: frame_def nonces_def)
  then have len: "length (heap w') = length (heap w)" by (rule map_eq_imp_length_eq)
  have "map lastNonce (heap w') ! r = map lastNonce (heap w) ! r" using eq by simp
  then show ?thesis using len assms(2) by simp
qed

lemma frame_registry:
  "frame w w' \<Longrightarrow> map_of (connections w') ri = Some r \<Longrightarrow> map_of (connections w) ri = Some r"
  unfolding frame_def by (metis option.distinct(1))

lemma handleMessage_dropped:
  assumes "map_of (connections w) ri = Some r"
    and "tracked_nonce packet = Some n"
    and "n \<le> lastNonce (heap w ! r)"
    and "byte_at buf 5 \<noteq> Some 0xff"
  shows "handleMessage X now buf (Parsed packet) ri w = w"
  using assms by (simp add: handleMessage_def)

lemma handleMessage_accepted:
  assumes "map_of (connections w) ri = Some r"
    and "tracked_nonce packet = Some n"
    and "lastNonce (heap w ! r) < n \<or> byte_at buf 5 = Some 0xff"
  shows "handleMessage X now buf (Parsed packet) ri w =
         emitDecoded X now packet r (upd r (\<lambda>c. c\<lparr> lastNonce := n \<rparr>) w)"
  using assms by (auto simp: handleMessage_def)

lemma getOrCreateConnection_heap:
  "r < length (heap w) \<Longrightarrow>
   r < length (heap (snd (getOrCreateConnection ri w))) \<and>
   heap (snd (getOrCreateConnection ri w)) ! r = heap w ! r"
  by (auto simp: getOrCreateConnection_def getNextClientId_def nth_append split: option.splits)

lemma getOrCreateConnection_new:
  "map_of (connections w) ri = None \<Longrightarrow>
   getOrCreateConnection ri w =
     (length (heap w),
      w\<lparr> lastClientId := Suc (lastClientId w),
         heap := heap w @ [new_Connection ri (Suc (lastClientId w))],
         connections := connections w @ [(ri, length (heap w))] \<rparr>)"
  by (simp add: getOrCreateConnection_def getNextClientId_def update_absent)

lemma handleMessage_step:
  assumes X: "framed X" and b: "byte_at buf 5 \<noteq> Some 0xff" and r: "r < length (heap w)"
  shows "r < length (heap (handleMessage X now buf parsed ri w)) \<and>
         lastNonce (heap w ! r) \<le> lastNonce (heap (handleMessage X now buf parsed ri w) ! r)"
proof (cases parsed)
  case Throws
  then show ?thesis using getOrCreateConnection_heap [OF r, of ri] by (simp add: handleMessage_def)
next
  case Null
  then show ?thesis using getOrCreateConnection_heap [OF r, of ri] by (simp add: handleMessage_def)
next
  case (Parsed packet)
  show ?thesis
  proof (cases "map_of (connections w) ri")
    case None
    show ?thesis
    proof (cases "is_ModdedHelloPacket packet")
      case False
      then show ?thesis using Parsed None r by (simp add: handleMessage_def)
    next
      case True
      then obtain n hello where p: "packet = ModdedHelloPacket n hello"
        by (cases packet) auto
      let ?w1 = "w\<lparr> lastClientId := Suc (lastClientId w),
         heap := heap w @ [new_Connection ri (Suc (lastClientId w))],
         connections := connections w @ [(ri, length (heap w))] \<rparr>"
      let ?w2 = "upd (length (heap w)) (\<lambda>c. c\<lparr> lastNonce := n \<rparr>) ?w1"
      have hm: "handleMessage X now buf parsed ri w = emitDecoded X now packet (length (heap w)) ?w2"
        using Parsed None p by (simp add: handleMessage_def getOrCreateConnection_new)
      have r2: "r < length (heap ?w2)" and e2: "heap ?w2 ! r = heap w ! r"
        using r by (simp_all add: nth_append)
      have "frame ?w2 (emitDecoded X now packet (length (heap w)) ?w2)"
        by (intro frame_emitDecoded X frame_refl)
      from frame_nth [OF this r2] show ?thesis unfolding hm e2 by simp
    qed
  next
    case (Some c)
    show ?thesis
    proof (cases "tracked_nonce packet")
      case None
      have hm: "handleMessage X now buf parsed ri w = emitDecoded X now packet c w"
        using Parsed Some None by (simp add: handleMessage_def)
      have "frame w (emitDecoded X now packet c w)"
        by (intro frame_emitDecoded X frame_refl)
      from frame_nth [OF this r] show ?thesis unfolding hm by simp
    next
      case (Some n)
      show ?thesis
      proof (cases "n \<le> lastNonce (heap w ! c)")
        case True
        then show ?thesis
          using handleMessage_dropped [OF \<open>map_of (connections w) ri = Some c\<close> Some True b]
            Parsed r by simp
      next
        case False
        let ?w2 = "upd c (\<lambda>c. c\<lparr> lastNonce := n \<rparr>) w"
        have hm: "handleMessage X now buf parsed ri w = emitDecoded X now packet c ?w2"
          using handleMessage_accepted [OF \<open>map_of (connections w) ri = Some c\<close> Some] False Parsed
          by simp
        have r2: "r < length (heap ?w2)" using r by simp
        have e2: "lastNonce (heap w ! r) \<le> lastNonce (heap ?w2 ! r)"
          using r False by (cases "r = c") simp_all
        have "frame ?w2 (emitDecoded X now packet c ?w2)"
          by (intro frame_emitDecoded X frame_refl)
        from frame_nth [OF this r2] show ?thesis unfolding hm using e2 by simp
      qed
    qed
  qed
qed

lemma handleMessages_monotone:
  assumes "framed X"
    and "list_all (\<lambda>d. byte_at (fst (snd d)) 5 \<noteq> Some 0xff) ds"
    and "r < length (heap w)"
  shows "r < length (heap (handleMessages X ds w)) \<and>
         lastNonce (heap w ! r) \<le> lastNonce (heap (handleMessages X ds w) ! r)"
  using assms(2,3)
proof (induction ds arbitrary: w)
  case Nil
  then show ?case by simp
next
  case (Cons d ds)
  obtain now buf parsed ri where d: "d = (now, buf, parsed, ri)" by (cases d)
  have b: "byte_at buf 5 \<noteq> Some 0xff" using Cons.prems(1) d by simp
  from handleMessage_step [OF assms(1) b Cons.prems(2), of now parsed ri]
  have s: "r < length (heap (handleMessage X now buf parsed ri w))"
    "lastNonce (heap w ! r) \<le> lastNonce (heap (handleMessage X now buf parsed ri w) ! r)"
    by simp_all
  have tl: "list_all (\<lambda>d. byte_at (fst (snd d)) 5 \<noteq> Some 0xff) ds"
    using Cons.prems(1) by simp
  from Cons.IH [OF tl s(1)] s(2) show ?case unfolding d by auto
qed

lemma handleMessage_exempt:
  assumes X: "framed X" and c: "map_of (connections w) ri = Some c" and l: "c < length (heap w)"
    and t: "tracked_nonce packet = Some n" and b: "byte_at buf 5 = Some 0xff"
  shows "lastNonce (heap (handleMessage X now buf (Parsed packet) ri w) ! c) = n"
proof -
  let ?w2 = "upd c (\<lambda>c. c\<lparr> lastNonce := n \<rparr>) w"
  have hm: "handleMessage X now buf (Parsed packet) ri w = emitDecoded X now packet c ?w2"
    using handleMessage_accepted [OF c t] b by simp
  have "frame ?w2 (emitDecoded X now packet c ?w2)"
    by (intro frame_emitDecoded X frame_refl)
  from frame_nth [OF this, of c] l show ?thesis unfolding hm by simp
qed

lemma reliable_twice:
  assumes X: "framed X" and c: "map_of (connections w) ri = Some r" and l: "r < length (heap w)"
    and b: "byte_at buf 5 \<noteq> Some 0xff"
  shows "handleMessage X now' buf (Parsed (ReliablePacket n cs)) ri
           (handleMessage X now buf (Parsed (ReliablePacket n cs)) ri w) =
         handleMessage X now buf (Parsed (ReliablePacket n cs)) ri w"
proof (cases "n \<le> lastNonce (heap w ! r)")
  case True
  have "handleMessage X t buf (Parsed (ReliablePacket n cs)) ri w = w" for t
    using c True b by (intro handleMessage_dropped) (simp_all add: tracked_nonce_def)
  then show ?thesis by simp
next
  case False
  let ?p = "ReliablePacket n cs"
  let ?w2 = "upd r (\<lambda>c. c\<lparr> lastNonce := n \<rparr>) w"
  let ?w1 = "emitDecoded X now ?p r ?w2"
  have hm: "handleMessage X now buf (Parsed ?p) ri w = ?w1"
    using False c by (intro handleMessage_accepted) (simp_all add: tracked_nonce_def)
  have f: "frame ?w2 ?w1" by (intro frame_emitDecoded X frame_refl)
  have n1: "lastNonce (heap ?w1 ! r) = n" using frame_nth [OF f, of r] l by simp
  have "handleMessage X now' buf (Parsed ?p) ri ?w1 = ?w1"
  proof (cases "map_of (connections ?w1) ri")
    case None
    then show ?thesis by (simp add: handleMessage_def)
  next
    case (Some r')
    then have "r' = r" using frame_registry [OF f Some] c by simp
    then show ?thesis
      using Some n1 b by (intro handleMessage_dropped [where r = r and n = n]) (simp_all add: tracked_nonce_def)
  qed
  then show ?thesis unfolding hm .
qed

lemma framed_plain: "framed (plain cfg)"
  by (simp add: framed_def plain_def frame_refl)

subsection \<open>The in-flight deque\<close>

lemma sendPacket_heap:
  "r < length (heap w) \<Longrightarrow>
   length (heap (sendPacket X now r packet w)) = length (heap w) \<and>
   sentPackets (heap (sendPacket X now r packet w) ! r) =
     (if entry_of X now packet = [] then sentPackets (heap w ! r)
      else take 8 (entry_of X now packet @ sentPackets (heap w ! r)))"
  by (cases packet) (simp_all add: sendPacket_def private_sendPacket_def Let_def)

lemma take8_take8: "take 8 (xs @ take 8 ys) = take 8 (xs @ ys)"
  by (simp add: take_append min_def) 

lemma sendPackets_deque:
  assumes "r < length (heap w)" and "length (sentPackets (heap w ! r)) \<le> 8"
  shows "r < length (heap (sendPackets X r calls w)) \<and>
         sentPackets (heap (sendPackets X r calls w) ! r) =
           take 8 (rev (in_flight X calls) @ sentPackets (heap w ! r))"
  using assms
proof (induction calls arbitrary: w)
  case Nil
  then show ?case by (simp add: in_flight_def)
next
  case (Cons call calls)
  obtain now packet where call: "call = (now, packet)" by (cases call)
  let ?w1 = "sendPacket X now r packet w"
  have len: "r < length (heap ?w1)"
    using sendPacket_heap [OF Cons.prems(1), of X now packet] Cons.prems(1) by simp
  have sp: "sentPackets (heap ?w1 ! r) = take 8 (entry_of X now packet @ sentPackets (heap w ! r))"
    using sendPacket_heap [OF Cons.prems(1), of X now packet] Cons.prems(2) by simp
  have le: "length (sentPackets (heap ?w1 ! r)) \<le> 8" unfolding sp by simp
  have rv: "rev (in_flight X (call # calls)) = rev (in_flight X calls) @ entry_of X now packet"
    unfolding call in_flight_def by (cases packet) simp_all
  from Cons.IH [OF len le]
  have l2: "r < length (heap (sendPackets X r calls ?w1))"
    and "sentPackets (heap (sendPackets X r calls ?w1) ! r) =
         take 8 (rev (in_flight X calls) @ take 8 (entry_of X now packet @ sentPackets (heap w ! r)))"
    unfolding sp by simp_all
  then have "sentPackets (heap (sendPackets X r calls ?w1) ! r) =
         take 8 (rev (in_flight X calls) @ entry_of X now packet @ sentPackets (heap w ! r))"
    by (simp only: take8_take8)
  then have "sentPackets (heap (sendPackets X r calls ?w1) ! r) =
         take 8 (rev (in_flight X (call # calls)) @ sentPackets (heap w ! r))"
    by (simp only: rv append_assoc)
  then show ?case using l2 unfolding call by simp
qed

subsection \<open>Disconnecting\<close>

lemma nth_upd:
  "xs[r := y] ! r' = (if r' = r \<and> r < length xs then y else xs ! r')"
  by (cases "r < length xs") (auto simp: nth_list_update list_update_beyond not_less)

lemma length_heap_upd [simp]: "length (heap (upd r f w)) = length (heap w)"
  by simp

lemma sendPacket_untracked:
  "entry_of X now packet = [] \<Longrightarrow>
   sendPacket X now r packet w = private_sendPacket (rinfo (heap w ! r)) (serialize X packet) w"
  by (cases packet) (simp_all add: sendPacket_def Let_def)

lemma disconnect_eq:
  "disconnect X now why r w =
     (upd r (\<lambda>c. c\<lparr> sentDisconnect := True \<rparr>) w)
       \<lparr> socket := socket w @ [(rinfo (heap w ! r), serialize X (DisconnectPacket why))],
         left := left w @ (case room (heap w ! r) of None \<Rightarrow> [] | Some code \<Rightarrow> [(r, code)]),
         connections := AList.delete (rinfo (heap w ! r)) (connections w) \<rparr>"
  by (cases "r < length (heap w)")
     (simp_all add: disconnect_def sendPacket_untracked private_sendPacket_def removeConnection_def
       upd_def Let_def list_update_beyond split: option.splits)

lemma disconnect_effect:
  "socket (disconnect X now why r w) =
     socket w @ [(rinfo (heap w ! r), serialize X (DisconnectPacket why))]"
  "map_of (connections (disconnect X now why r w)) (rinfo (heap w ! r)) = None"
  "length (heap (disconnect X now why r w)) = length (heap w)"
  "heap (disconnect X now why r w) ! r' =
     (if r' = r \<and> r < length (heap w) then (heap w ! r)\<lparr> sentDisconnect := True \<rparr> else heap w ! r')"
  "rooms (disconnect X now why r w) = rooms w"
  by (simp_all add: disconnect_eq AList.delete_conv nth_upd)

subsection \<open>The host-only listeners\<close>

lemma host_only:
  assumes "room (heap w ! r) = Some code"
    and "map_of (rooms w) code = Some rm"
    and "map_of (members rm) (clientId (heap w ! r)) = Some r"
    and "hostid rm \<noteq> clientId (heap w ! r)"
  shows "StartGame_listener X now c r w = disconnect X now (Code Hacking) r w
       \<and> AlterGame_listener X now c alterTag val r w = disconnect X now (Code Hacking) r w
       \<and> EndGame_listener X now c why showAd r w = disconnect X now (Code Hacking) r w
       \<and> KickPlayer_listener X now r w = disconnect X now (Code Hacking) r w"
  using assms
  by (simp add: StartGame_listener_def AlterGame_listener_def EndGame_listener_def
      KickPlayer_listener_def getPlayer_def ishost_def)

subsection \<open>The ping interval\<close>

lemma ping_alive:
  assumes "\<not> presumed_dead (heap w ! r)" and "r < length (heap w)"
  shows "ping_connection X now r w =
     (upd r (\<lambda>c. after_ping X now (heap w ! r)) w)
       \<lparr> socket := socket w
            @ (rinfo (heap w ! r), serialize X (PingPacket (Suc (incrNonce (heap w ! r)))))
            # map (\<lambda>sent. (rinfo (heap w ! r), buffer sent))
                (filter (is_stale now)
                   (take 8 (ping_entry X now (heap w ! r) # sentPackets (heap w ! r)))) \<rparr>"
  using assms
  by (simp add: ping_connection_def getNextNonce_def sendPacket_def private_sendPacket_def
      resend_all_def upd_def Let_def after_ping_def ping_entry_def)

lemma ping_connection_heap:
  "length (heap (ping_connection X now r w)) = length (heap w)"
  "r < length (heap w) \<Longrightarrow> heap (ping_connection X now r w) ! r = after_ping X now (heap w ! r)"
  "r' \<noteq> r \<Longrightarrow> heap (ping_connection X now r w) ! r' = heap w ! r'"
proof -
  show "length (heap (ping_connection X now r w)) = length (heap w)"
    by (simp add: ping_connection_def disconnect_effect getNextNonce_def sendPacket_def
        private_sendPacket_def resend_all_def Let_def)
  show "r < length (heap w) \<Longrightarrow> heap (ping_connection X now r w) ! r = after_ping X now (heap w ! r)"
    by (cases "presumed_dead (heap w ! r)")
       (simp_all add: ping_alive, simp add: ping_connection_def disconnect_effect after_ping_def)
  show "r' \<noteq> r \<Longrightarrow> heap (ping_connection X now r w) ! r' = heap w ! r'"
    by (simp add: ping_connection_def disconnect_effect getNextNonce_def sendPacket_def
        private_sendPacket_def resend_all_def Let_def nth_upd)
qed

lemma fold_ping_other:
  "r \<notin> set rs \<Longrightarrow> heap (fold (ping_connection X now) rs w) ! r = heap w ! r"
  by (induction rs arbitrary: w) (auto simp: ping_connection_heap)

lemma fold_ping_length:
  "length (heap (fold (ping_connection X now) rs w)) = length (heap w)"
  by (induction rs arbitrary: w) (auto simp: ping_connection_heap)

lemma fold_ping_heap:
  "distinct rs \<Longrightarrow> r \<in> set rs \<Longrightarrow> r < length (heap w) \<Longrightarrow>
   heap (fold (ping_connection X now) rs w) ! r = after_ping X now (heap w ! r)"
proof (induction rs arbitrary: w)
  case Nil
  then show ?case by simp
next
  case (Cons a rs)
  show ?case
  proof (cases "a = r")
    case True
    then show ?thesis using Cons.prems by (simp add: fold_ping_other ping_connection_heap)
  next
    case False
    then have "heap (fold (ping_connection X now) rs (ping_connection X now a w)) ! r =
               after_ping X now (heap (ping_connection X now a w) ! r)"
      using Cons.prems by (intro Cons.IH) (simp_all add: ping_connection_heap)
    then show ?thesis using False by (simp add: ping_connection_heap)
  qed
qed

lemma frame_resend_all [frame_intros]:
  "frame w0 w \<Longrightarrow> frame w0 (resend_all now r w)"
proof -
  assume "frame w0 w"
  then have "frame w0 (upd r (\<lambda>c. c\<lparr> sentPackets := map (resend now) (sentPackets c) \<rparr>) w)"
    by (intro frame_intros) simp_all
  then show ?thesis by (simp add: resend_all_def Let_def frame_def nonces_def)
qed

lemma frame_ping_connection [frame_intros]:
  "frame w0 w \<Longrightarrow> frame w0 (ping_connection X now r w)"
  unfolding ping_connection_def getNextNonce_def
  by (auto intro!: frame_intros)

lemma fold_ping_registry:
  "distinct rs \<Longrightarrow> r \<in> set rs \<Longrightarrow> presumed_dead (heap w ! r) \<Longrightarrow>
   map_of (connections (fold (ping_connection X now) rs w)) (rinfo (heap w ! r)) = None"
proof (induction rs arbitrary: w)
  case Nil
  then show ?case by simp
next
  case (Cons a rs)
  show ?case
  proof (cases "a = r")
    case True
    let ?w1 = "ping_connection X now r w"
    have "map_of (connections ?w1) (rinfo (heap w ! r)) = None"
      using Cons.prems(3) by (simp add: ping_connection_def disconnect_effect)
    moreover have "frame ?w1 (fold (ping_connection X now) rs ?w1)"
      by (intro frame_intros)
    ultimately show ?thesis using True unfolding frame_def by (metis fold_simps(2))
  next
    case False
    have e: "heap (ping_connection X now a w) ! r = heap w ! r"
      using False by (simp add: ping_connection_heap)
    have "map_of (connections (fold (ping_connection X now) rs (ping_connection X now a w)))
            (rinfo (heap (ping_connection X now a w) ! r)) = None"
      using Cons.prems False by (intro Cons.IH) (simp_all add: e)
    then show ?thesis by (simp add: e)
  qed
qed

subsection \<open>The claims about the worker\<close>

text \<open>
  C1, as stated: a reliable packet received a second time is acknowledged again while
  its children are handled once, so that Reliable(nonce=5) sent twice gives two
  Acknowledge(5). In the code the test of the nonce comes before the listeners, the
  one that acknowledges included: the second datagram sends nothing. Here the client's
  last nonce is 4 and the packet carries a JoinGame for a room that does not exist;
  both datagrams together make the worker send the join error and one Acknowledge(5).
\<close>

theorem duplicate_acknowledged_once_counterexample:
  "map snd (socket (handleMessages (plain default_reactor)
      [(1000, [1, 0, 5, 4, 0, 1, 7, 0, 0, 0], Parsed (ReliablePacket 5 [JoinGameMessage 7]), alice),
       (1010, [1, 0, 5, 4, 0, 1, 7, 0, 0, 0], Parsed (ReliablePacket 5 [JoinGameMessage 7]), alice)]
      (solo ((client alice 1)\<lparr> lastNonce := 4 \<rparr>))))
   = [ReliablePacket 1 [JoinGameError (Code GameNotFound)], AcknowledgePacket 5 []]
   \<and> count_list
       (map snd (socket (handleMessages (plain default_reactor)
          [(1000, [1, 0, 5, 4, 0, 1, 7, 0, 0, 0], Parsed (ReliablePacket 5 [JoinGameMessage 7]), alice),
           (1010, [1, 0, 5, 4, 0, 1, 7, 0, 0, 0], Parsed (ReliablePacket 5 [JoinGameMessage 7]), alice)]
          (solo ((client alice 1)\<lparr> lastNonce := 4 \<rparr>)))))
       (AcknowledgePacket 5 []) = 1"
  by code_simp

text \<open>
  C1, amended: for a registered connection and a Reliable packet with nonce \<open>n\<close>
  whose datagram has no \<open>0xff\<close> at offset 5: when \<open>n\<close> is at most the last nonce of
  the connection, the datagram changes nothing (no Acknowledge is sent, no listener
  runs); when \<open>n\<close> is greater, the last nonce becomes \<open>n\<close>, the listeners of the
  children run, and the listener on Reliable packets sends one Acknowledge(\<open>n\<close>) to
  the connection. So the same Reliable packet received twice has the effect of
  receiving it once: one Acknowledge and one run of the listeners of its children.
\<close>

theorem duplicate_dropped:
  assumes "framed X" and "map_of (connections w) ri = Some r" and "r < length (heap w)"
    and "byte_at buf 5 \<noteq> Some 0xff"
  shows "(n \<le> lastNonce (heap w ! r) \<longrightarrow>
            handleMessage X now buf (Parsed (ReliablePacket n cs)) ri w = w)
       \<and> (lastNonce (heap w ! r) < n \<longrightarrow>
            handleMessage X now buf (Parsed (ReliablePacket n cs)) ri w =
              reliable_listener X now n r
                (fold (\<lambda>msg. emit_child X now msg r) cs (upd r (\<lambda>c. c\<lparr> lastNonce := n \<rparr>) w)))
       \<and> socket (reliable_listener X now n r v) =
            socket v @ [(rinfo (heap v ! r), serialize X (AcknowledgePacket n []))]
       \<and> handleMessage X now' buf (Parsed (ReliablePacket n cs)) ri
            (handleMessage X now buf (Parsed (ReliablePacket n cs)) ri w) =
          handleMessage X now buf (Parsed (ReliablePacket n cs)) ri w"
proof -
  have t: "tracked_nonce (ReliablePacket n cs) = Some n" by (simp add: tracked_nonce_def)
  have a: "n \<le> lastNonce (heap w ! r) \<Longrightarrow>
           handleMessage X now buf (Parsed (ReliablePacket n cs)) ri w = w"
    using handleMessage_dropped [OF assms(2) t _ assms(4)] by simp
  have b: "lastNonce (heap w ! r) < n \<Longrightarrow>
           handleMessage X now buf (Parsed (ReliablePacket n cs)) ri w =
             reliable_listener X now n r
               (fold (\<lambda>msg. emit_child X now msg r) cs (upd r (\<lambda>c. c\<lparr> lastNonce := n \<rparr>) w))"
    using handleMessage_accepted [OF assms(2) t, of buf X now]
    by (simp add: emitDecoded_def emit_root_def)
  have c: "socket (reliable_listener X now n r v) =
           socket v @ [(rinfo (heap v ! r), serialize X (AcknowledgePacket n []))]"
    by (cases "r < length (heap v)")
       (simp_all add: reliable_listener_def sendPacket_untracked private_sendPacket_def
          list_update_beyond)
  show ?thesis using a b c reliable_twice [OF assms] by blast
qed

theorem duplicate_dropped_witness:
  "handleMessage (plain default_reactor) 1010 [1, 0, 5, 4, 0, 1, 7, 0, 0, 0]
     (Parsed (ReliablePacket 5 [JoinGameMessage 7])) alice
     (handleMessage (plain default_reactor) 1000 [1, 0, 5, 4, 0, 1, 7, 0, 0, 0]
        (Parsed (ReliablePacket 5 [JoinGameMessage 7])) alice
        (solo ((client alice 1)\<lparr> lastNonce := 4 \<rparr>)))
   = handleMessage (plain default_reactor) 1000 [1, 0, 5, 4, 0, 1, 7, 0, 0, 0]
        (Parsed (ReliablePacket 5 [JoinGameMessage 7])) alice
        (solo ((client alice 1)\<lparr> lastNonce := 4 \<rparr>))
   \<and> handleMessage (plain default_reactor) 1000 [1, 0, 5, 4, 0, 1, 7, 0, 0, 0]
        (Parsed (ReliablePacket 4 [JoinGameMessage 7])) alice
        (solo ((client alice 1)\<lparr> lastNonce := 4 \<rparr>))
     = solo ((client alice 1)\<lparr> lastNonce := 4 \<rparr>)"
proof -
  let ?w = "solo ((client alice 1)\<lparr> lastNonce := 4 \<rparr>)"
  have c: "map_of (connections ?w) alice = Some 0" by code_simp
  have l: "0 < length (heap ?w)" by code_simp
  have b: "byte_at [1, 0, 5, 4, 0, 1, 7, 0, 0, 0] 5 \<noteq> Some 0xff" by code_simp
  have n: "(4::nat) \<le> lastNonce (heap ?w ! 0)" by code_simp
  show ?thesis
    using duplicate_dropped [OF framed_plain c l b, where n = 5 and cs = "[JoinGameMessage 7]"
          and now = 1000 and now' = 1010]
      duplicate_dropped [OF framed_plain c l b, where n = 4 and cs = "[JoinGameMessage 7]"
          and now = 1000 and now' = 1010] n
    by blast
qed

text \<open>
  C3: for a connection whose in-flight deque holds at most 8 packets (a new connection
  has none), after any sequence of calls of \<open>sendPacket\<close> the deque is the first 8 of:
  the entries of the tracked packets of the sequence, newest first, followed by the
  entries it held before. So it never has more than 8 entries, a new entry is put in
  front and what falls behind the eighth place is dropped; and sending an Acknowledge
  packet leaves the deque as it is.
\<close>

theorem sentPackets_newest_first:
  assumes "r < length (heap w)" and "length (sentPackets (heap w ! r)) \<le> 8"
  shows "sentPackets (heap (sendPackets X r calls w) ! r) =
           take 8 (rev (in_flight X calls) @ sentPackets (heap w ! r))
       \<and> length (sentPackets (heap (sendPackets X r calls w) ! r)) \<le> 8
       \<and> sentPackets (heap (sendPacket X now r (AcknowledgePacket n missing) w) ! r) =
           sentPackets (heap w ! r)"
proof -
  have "sentPackets (heap (sendPackets X r calls w) ! r) =
        take 8 (rev (in_flight X calls) @ sentPackets (heap w ! r))"
    using sendPackets_deque [OF assms] by simp
  moreover from this have "length (sentPackets (heap (sendPackets X r calls w) ! r)) \<le> 8"
    by simp
  moreover have "sentPackets (heap (sendPacket X now r (AcknowledgePacket n missing) w) ! r) =
                 sentPackets (heap w ! r)"
    using sendPacket_heap [OF assms(1), of X now "AcknowledgePacket n missing"] by simp
  ultimately show ?thesis by blast
qed

theorem sentPackets_newest_first_witness:
  "map nonce (sentPackets (heap (sendPackets (plain default_reactor) 0
       [(10, PingPacket 9), (20, AcknowledgePacket 3 []), (30, ReliablePacket 10 []),
        (40, DisconnectPacket NoReason)]
       (solo busy_client)) ! 0))
   = [10, 9, 8, 7, 6, 5, 4, 3]
   \<and> length (sentPackets (heap (sendPackets (plain default_reactor) 0
       [(10, PingPacket 9), (20, AcknowledgePacket 3 []), (30, ReliablePacket 10 []),
        (40, DisconnectPacket NoReason)]
       (solo busy_client)) ! 0)) \<le> 8"
proof -
  let ?calls = "[(10, PingPacket 9), (20, AcknowledgePacket 3 []), (30, ReliablePacket 10 []),
        (40, DisconnectPacket NoReason)]"
  have l: "0 < length (heap (solo busy_client))" by code_simp
  have d: "length (sentPackets (heap (solo busy_client) ! 0)) \<le> 8" by code_simp
  have e: "map nonce (take 8 (rev (in_flight (plain default_reactor) ?calls)
             @ sentPackets (heap (solo busy_client) ! 0))) = [10, 9, 8, 7, 6, 5, 4, 3]"
    by code_simp
  show ?thesis
    using sentPackets_newest_first [OF l d, of "plain default_reactor" ?calls] e by simp
qed

text \<open>
  C4: the last nonce of a connection and the test on the nonce in \<open>handleMessage\<close>.
  Across any sequence of datagrams none of which has \<open>0xff\<close> at offset 5, the last
  nonce of every connection does not decrease; and a packet with a nonce, other than an
  Acknowledge, from a registered connection is discarded without being handled when its
  nonce is at most the last nonce and the byte at offset 5 is not \<open>0xff\<close>. The
  exemption, which the comment at the test gives to the mod declaration sent with nonce
  0, is decided by that byte alone: a packet with a nonce whose datagram has \<open>0xff\<close>
  at offset 5 is handed to the listeners (for a Reliable packet: the listeners of all
  its children, then the listener that sends the Acknowledge) and the last nonce
  becomes its nonce, whatever the nonce is and whatever else the packet carries. So the
  code does more than the claim allows: for \<open>reactor_client\<close>, whose last nonce is 5,
  the Reliable packet with nonce 3 that carries a mod declaration and a JoinGame is
  handled, the JoinGame included, and the last nonce goes down to 3.
\<close>

theorem nonce_guard:
  assumes "framed X"
    and "list_all (\<lambda>d. byte_at (fst (snd d)) 5 \<noteq> Some 0xff) ds"
    and "r < length (heap w)"
    and "map_of (connections w) ri = Some c" and "c < length (heap w)"
    and "tracked_nonce packet = Some n"
  shows "r < length (heap (handleMessages X ds w))
       \<and> lastNonce (heap w ! r) \<le> lastNonce (heap (handleMessages X ds w) ! r)
       \<and> (n \<le> lastNonce (heap w ! c) \<and> byte_at buf 5 \<noteq> Some 0xff \<longrightarrow>
            handleMessage X now buf (Parsed packet) ri w = w)
       \<and> (byte_at buf 5 = Some 0xff \<longrightarrow>
            handleMessage X now buf (Parsed packet) ri w =
              emitDecoded X now packet c (upd c (\<lambda>c. c\<lparr> lastNonce := n \<rparr>) w)
            \<and> lastNonce (heap (handleMessage X now buf (Parsed packet) ri w) ! c) = n)
       \<and> emitDecoded X now (ReliablePacket n cs) c v =
            reliable_listener X now n c (fold (\<lambda>msg. emit_child X now msg c) cs v)
       \<and> socket (reliable_listener X now n c v) =
            socket v @ [(rinfo (heap v ! c), serialize X (AcknowledgePacket n []))]"
proof -
  have a: "byte_at buf 5 = Some 0xff \<Longrightarrow>
           handleMessage X now buf (Parsed packet) ri w =
             emitDecoded X now packet c (upd c (\<lambda>c. c\<lparr> lastNonce := n \<rparr>) w)"
    using handleMessage_accepted [OF assms(4,6), of buf X now] by simp
  have b: "emitDecoded X now (ReliablePacket n cs) c v =
            reliable_listener X now n c (fold (\<lambda>msg. emit_child X now msg c) cs v)"
    by (simp add: emitDecoded_def emit_root_def)
  have s: "socket (reliable_listener X now n c v) =
           socket v @ [(rinfo (heap v ! c), serialize X (AcknowledgePacket n []))]"
    by (cases "c < length (heap v)")
       (simp_all add: reliable_listener_def sendPacket_untracked private_sendPacket_def
          list_update_beyond)
  show ?thesis
    using handleMessages_monotone [OF assms(1,2,3)]
      handleMessage_dropped [OF assms(4,6), of buf X now]
      handleMessage_exempt [OF assms(1,4,5,6), of buf now] a b s
    by blast
qed

theorem nonce_guard_witness:
  "lastNonce (heap (solo reactor_client) ! 0) = 5
   \<and> lastNonce (heap (solo reactor_client) ! 0)
     \<le> lastNonce (heap (handleMessages (plain default_reactor)
          [(1000, [12, 0, 3], Parsed (PingPacket 3), alice),
           (1010, [12, 0, 9], Parsed (PingPacket 9), alice),
           (1020, [12, 0, 7], Parsed (PingPacket 7), alice)]
          (solo reactor_client)) ! 0)
   \<and> handleMessage (plain default_reactor) 1000 [12, 0, 3] (Parsed (PingPacket 3)) alice
        (solo reactor_client)
     = solo reactor_client
   \<and> handleMessage (plain default_reactor) 1000 declaration_join_datagram
        (Parsed (ReliablePacket 3
           [ReactorModDeclaration 0 ''modA'' ''1.0.0'' Both, JoinGameMessage 7])) alice
        (solo reactor_client)
     = emitDecoded (plain default_reactor) 1000
        (ReliablePacket 3 [ReactorModDeclaration 0 ''modA'' ''1.0.0'' Both, JoinGameMessage 7]) 0
        (upd 0 (\<lambda>c. c\<lparr> lastNonce := 3 \<rparr>) (solo reactor_client))
   \<and> lastNonce (heap (handleMessage (plain default_reactor) 1000 declaration_join_datagram
        (Parsed (ReliablePacket 3
           [ReactorModDeclaration 0 ''modA'' ''1.0.0'' Both, JoinGameMessage 7])) alice
        (solo reactor_client)) ! 0) = 3
   \<and> map snd (socket (handleMessage (plain default_reactor) 1000 declaration_join_datagram
        (Parsed (ReliablePacket 3
           [ReactorModDeclaration 0 ''modA'' ''1.0.0'' Both, JoinGameMessage 7])) alice
        (solo reactor_client)))
     = [ReliablePacket 1 [JoinGameError (Code GameNotFound)], AcknowledgePacket 3 []]
   \<and> map fst (mods (heap (handleMessage (plain default_reactor) 1000 declaration_join_datagram
        (Parsed (ReliablePacket 3
           [ReactorModDeclaration 0 ''modA'' ''1.0.0'' Both, JoinGameMessage 7])) alice
        (solo reactor_client)) ! 0)) = [''modA'']
   \<and> lastNonce (heap (handleMessage (plain default_reactor) 1000 declaration_datagram
        (Parsed (ReliablePacket 0 [ReactorModDeclaration 0 ''modA'' ''1.0.0'' Both])) alice
        (solo reactor_client)) ! 0) = 0"
proof -
  let ?w = "solo reactor_client"
  let ?ds = "[(1000, [12, 0, 3], Parsed (PingPacket 3), alice),
           (1010, [12, 0, 9], Parsed (PingPacket 9), alice),
           (1020, [12, 0, 7], Parsed (PingPacket 7), alice)]"
  let ?both = "ReliablePacket 3 [ReactorModDeclaration 0 ''modA'' ''1.0.0'' Both, JoinGameMessage 7]"
  let ?decl = "ReliablePacket 0 [ReactorModDeclaration 0 ''modA'' ''1.0.0'' Both]"
  have d: "list_all (\<lambda>d. byte_at (fst (snd d)) 5 \<noteq> Some 0xff) ?ds" by code_simp
  have l: "0 < length (heap ?w)" by code_simp
  have c: "map_of (connections ?w) alice = Some 0" by code_simp
  have t: "tracked_nonce (PingPacket 3) = Some 3" by code_simp
  have t': "tracked_nonce ?both = Some 3" by code_simp
  have t'': "tracked_nonce ?decl = Some 0" by code_simp
  have n: "(3::nat) \<le> lastNonce (heap ?w ! 0)" by code_simp
  have n5: "lastNonce (heap ?w ! 0) = 5" by code_simp
  have b: "byte_at [12, 0, 3] 5 \<noteq> Some 0xff" by code_simp
  have b': "byte_at declaration_join_datagram 5 = Some 0xff" by code_simp
  have b'': "byte_at declaration_datagram 5 = Some 0xff" by code_simp
  have s: "map snd (socket (handleMessage (plain default_reactor) 1000 declaration_join_datagram
        (Parsed ?both) alice ?w))
     = [ReliablePacket 1 [JoinGameError (Code GameNotFound)], AcknowledgePacket 3 []]"
    by code_simp
  have m: "map fst (mods (heap (handleMessage (plain default_reactor) 1000
        declaration_join_datagram (Parsed ?both) alice ?w) ! 0)) = [''modA'']"
    by code_simp
  show ?thesis
    using nonce_guard [OF framed_plain d l c l t, where buf = "[12, 0, 3]" and now = 1000]
      nonce_guard [OF framed_plain d l c l t', where buf = declaration_join_datagram
          and now = 1000]
      nonce_guard [OF framed_plain d l c l t'', where buf = declaration_datagram
          and now = 1000] n n5 b b' b'' s m
    by blast
qed

text \<open>
  C2, as stated: on a run of the interval every unacknowledged packet in flight that
  is older than 500 ms is sent again. In the code the Ping of the interval is itself
  put in front of the deque before the packets are looked at, and a deque of 8 loses
  its oldest packet to it. \<open>busy_client\<close> is not presumed dead (its newest packet is
  acknowledged); its oldest packet, nonce 1, is unacknowledged and 2000 ms old; the
  interval sends the Ping and the packets with the nonces 7 down to 2, and not the
  packet with nonce 1. And for \<open>silent_client\<close>, which is presumed dead and whose 8
  packets are all unacknowledged and 2000 ms old, the interval sends the Disconnect
  packet and none of the 8.
\<close>

theorem oldest_packet_not_resent_counterexample:
  "\<not> presumed_dead busy_client
   \<and> \<lparr> nonce = 1, buffer = ReliablePacket 1 [], sentAt = 0, acked = False \<rparr>
       \<in> set (sentPackets busy_client)
   \<and> is_stale 2000 \<lparr> nonce = 1, buffer = ReliablePacket 1 [], sentAt = 0, acked = False \<rparr>
   \<and> map snd (socket (ping_interval (plain default_reactor) 2000 (solo busy_client)))
     = [PingPacket 9, ReliablePacket 7 [], ReliablePacket 6 [], ReliablePacket 5 [],
        ReliablePacket 4 [], ReliablePacket 3 [], ReliablePacket 2 []]
   \<and> presumed_dead silent_client
   \<and> list_all (is_stale 2000) (sentPackets silent_client)
   \<and> map snd (socket (ping_interval (plain default_reactor) 2000 (solo silent_client)))
     = [DisconnectPacket NoReason]"
  by code_simp

text \<open>
  C2, amended: on a run of the interval, for every registered connection (the registry
  holds each connection once): a connection whose deque holds 8 packets none of which
  is acknowledged is disconnected, which removes it from the registry, and nothing of
  it is sent again; for any other connection a Ping with the next nonce is sent and
  put in front of the deque, which is cut to 8, and then every packet in that deque
  that is unacknowledged and older than 500 ms is sent again with the bytes it holds
  and has its time set to the current time.
\<close>

theorem ping_interval_effect:
  assumes "distinct (map snd (connections w))" and "r \<in> set (map snd (connections w))"
    and "r < length (heap w)"
  shows "heap (ping_interval X now w) ! r = after_ping X now (heap w ! r)
       \<and> (presumed_dead (heap w ! r) \<longrightarrow>
            ping_connection X now r w = disconnect X now NoReason r w
            \<and> map_of (connections (ping_interval X now w)) (rinfo (heap w ! r)) = None
            \<and> sentPackets (heap (ping_interval X now w) ! r) = sentPackets (heap w ! r))
       \<and> (\<not> presumed_dead (heap w ! r) \<longrightarrow>
            sentPackets (heap (ping_interval X now w) ! r) =
              map (resend now) (take 8 (ping_entry X now (heap w ! r) # sentPackets (heap w ! r)))
            \<and> socket (ping_connection X now r w) =
                socket w
                @ (rinfo (heap w ! r), serialize X (PingPacket (Suc (incrNonce (heap w ! r)))))
                # map (\<lambda>sent. (rinfo (heap w ! r), buffer sent))
                    (filter (is_stale now)
                       (take 8 (ping_entry X now (heap w ! r) # sentPackets (heap w ! r))))
            \<and> connections (ping_connection X now r w) = connections w)"
proof -
  have h: "heap (ping_interval X now w) ! r = after_ping X now (heap w ! r)"
    unfolding ping_interval_def using assms by (intro fold_ping_heap) simp_all
  have d: "presumed_dead (heap w ! r) \<Longrightarrow>
           ping_connection X now r w = disconnect X now NoReason r w"
    by (simp add: ping_connection_def)
  have g: "presumed_dead (heap w ! r) \<Longrightarrow>
           map_of (connections (ping_interval X now w)) (rinfo (heap w ! r)) = None"
    unfolding ping_interval_def using assms by (intro fold_ping_registry) simp_all
  have a: "\<not> presumed_dead (heap w ! r) \<Longrightarrow>
           socket (ping_connection X now r w) =
                socket w
                @ (rinfo (heap w ! r), serialize X (PingPacket (Suc (incrNonce (heap w ! r)))))
                # map (\<lambda>sent. (rinfo (heap w ! r), buffer sent))
                    (filter (is_stale now)
                       (take 8 (ping_entry X now (heap w ! r) # sentPackets (heap w ! r))))
           \<and> connections (ping_connection X now r w) = connections w"
    using ping_alive [OF _ assms(3), of X now] by simp
  show ?thesis using h d g a by (simp add: after_ping_def)
qed

theorem ping_interval_effect_witness:
  "map nonce (sentPackets (heap (ping_interval (plain default_reactor) 2000 (solo busy_client)) ! 0))
     = [9, 8, 7, 6, 5, 4, 3, 2]
   \<and> map sentAt (sentPackets (heap (ping_interval (plain default_reactor) 2000 (solo busy_client)) ! 0))
     = [2000, 0, 2000, 2000, 2000, 2000, 2000, 2000]
   \<and> map_of (connections (ping_interval (plain default_reactor) 2000 (solo silent_client))) alice
     = None"
proof -
  let ?X = "plain default_reactor"
  let ?w = "solo busy_client"
  let ?dead = "solo silent_client"
  have d: "distinct (map snd (connections ?w))" "distinct (map snd (connections ?dead))"
    by code_simp+
  have m: "0 \<in> set (map snd (connections ?w))" "0 \<in> set (map snd (connections ?dead))"
    by code_simp+
  have l: "0 < length (heap ?w)" "0 < length (heap ?dead)" by code_simp+
  have a: "\<not> presumed_dead (heap ?w ! 0)" by code_simp
  have p: "presumed_dead (heap ?dead ! 0)" by code_simp
  have r: "rinfo (heap ?dead ! 0) = alice" by code_simp
  have e: "map nonce (map (resend 2000) (take 8 (ping_entry ?X 2000 (heap ?w ! 0)
             # sentPackets (heap ?w ! 0)))) = [9, 8, 7, 6, 5, 4, 3, 2]"
    "map sentAt (map (resend 2000) (take 8 (ping_entry ?X 2000 (heap ?w ! 0)
             # sentPackets (heap ?w ! 0)))) = [2000, 0, 2000, 2000, 2000, 2000, 2000, 2000]"
    by code_simp+
  from ping_interval_effect [OF d(1) m(1) l(1), where X = ?X and now = 2000] a
  have s: "sentPackets (heap (ping_interval ?X 2000 ?w) ! 0) =
           map (resend 2000) (take 8 (ping_entry ?X 2000 (heap ?w ! 0) # sentPackets (heap ?w ! 0)))"
    by blast
  from ping_interval_effect [OF d(2) m(2) l(2), where X = ?X and now = 2000] p
  have g: "map_of (connections (ping_interval ?X 2000 ?dead)) (rinfo (heap ?dead ! 0)) = None"
    by blast
  show ?thesis using e g unfolding s r by blast
qed

text \<open>
  C5: when a connection that is a member of its room, and not the room's host, sends
  StartGame, AlterGame, EndGame or KickPlayer, the listener does nothing but
  disconnect it with the reason Hacking: the one datagram sent is the Disconnect packet
  to the sender, so nothing is broadcast to the room, and the sender is removed from
  the registry.
\<close>

theorem host_only_messages:
  assumes "room (heap w ! r) = Some code"
    and "map_of (rooms w) code = Some rm"
    and "map_of (members rm) (clientId (heap w ! r)) = Some r"
    and "hostid rm \<noteq> clientId (heap w ! r)"
    and "msg \<in> {StartGameMessage c, AlterGameMessage c alterTag val,
                 EndGameMessage c why showAd, KickPlayerMessage c target isBanned}"
  shows "emit_child X now msg r w = disconnect X now (Code Hacking) r w
       \<and> socket (emit_child X now msg r w) =
           socket w @ [(rinfo (heap w ! r), serialize X (DisconnectPacket (Code Hacking)))]
       \<and> map_of (connections (emit_child X now msg r w)) (rinfo (heap w ! r)) = None
       \<and> rooms (emit_child X now msg r w) = rooms w"
proof -
  have "emit_child X now msg r w = disconnect X now (Code Hacking) r w"
    using assms(5) host_only [OF assms(1-4), of X now] by (auto simp: emit_child_def)
  then show ?thesis by (simp add: disconnect_effect)
qed

theorem host_only_messages_witness:
  "socket (emit_child (plain default_reactor) 1000 (StartGameMessage 7) 1 lobby)
     = [(bob, DisconnectPacket (Code Hacking))]
   \<and> map_of (connections (emit_child (plain default_reactor) 1000 (StartGameMessage 7) 1 lobby)) bob
     = None
   \<and> map snd (socket (emit_child (plain default_reactor) 1000 (StartGameMessage 7) 0 lobby))
     = [ReliablePacket 1 [StartGameMessage 7], ReliablePacket 1 [StartGameMessage 7]]"
proof -
  let ?X = "plain default_reactor"
  let ?rm = "\<lparr> hostid = 1, members = [(1, 0), (2, 1)], bans = [],
              state = NotStarted, maxPlayers = 10 \<rparr>"
  have a: "room (heap lobby ! 1) = Some 7" by code_simp
  have b: "map_of (rooms lobby) 7 = Some ?rm" by code_simp
  have c: "map_of (members ?rm) (clientId (heap lobby ! 1)) = Some 1" by code_simp
  have d: "hostid ?rm \<noteq> clientId (heap lobby ! 1)" by code_simp
  have e: "StartGameMessage 7 \<in> {StartGameMessage 7, AlterGameMessage 7 0 0,
                 EndGameMessage 7 0 False, KickPlayerMessage 7 0 False}" by simp
  have r: "rinfo (heap lobby ! 1) = bob"
    "socket lobby @ [(bob, serialize ?X (DisconnectPacket (Code Hacking)))]
       = [(bob, DisconnectPacket (Code Hacking))]"
    by code_simp+
  have h: "map snd (socket (emit_child ?X 1000 (StartGameMessage 7) 0 lobby))
     = [ReliablePacket 1 [StartGameMessage 7], ReliablePacket 1 [StartGameMessage 7]]"
    by code_simp
  from host_only_messages [OF a b c d e, where X = ?X and now = 1000]
  have "socket (emit_child ?X 1000 (StartGameMessage 7) 1 lobby) =
          socket lobby @ [(rinfo (heap lobby ! 1), serialize ?X (DisconnectPacket (Code Hacking)))]"
    and "map_of (connections (emit_child ?X 1000 (StartGameMessage 7) 1 lobby)) (rinfo (heap lobby ! 1))
          = None"
    by blast+
  then show ?thesis using h unfolding r by blast
qed

text \<open>
  C6, on the code: with the mod policy \<open>{modA: true}\<close> and a client of the mod
  framework that declared no mods, \<open>checkClientMods\<close> disconnects the client with the
  message \<open>missing_required_mod\<close> for \<open>modA\<close> and \<open>any\<close>, as the claim says, and then
  goes on with the loop and returns \<open>true\<close>: the branch has no \<open>return false\<close>, which
  every other branch that disconnects has. The listener on \<open>JoinGameMessage\<close> therefore
  proceeds, and the disconnected client becomes a member (and the host) of room 7.
\<close>

theorem missing_required_mod_join_proceeds:
  "fst (checkClientMods (plain requires_modA) 1000 0
         ((solo ((client alice 1)\<lparr> usingReactor := True \<rparr>))\<lparr>
            rooms := [(7, \<lparr> hostid = 0, members = [], bans = [], state = NotStarted,
                            maxPlayers = 10 \<rparr>)] \<rparr>)) = Some True
   \<and> socket (snd (checkClientMods (plain requires_modA) 1000 0
         ((solo ((client alice 1)\<lparr> usingReactor := True \<rparr>))\<lparr>
            rooms := [(7, \<lparr> hostid = 0, members = [], bans = [], state = NotStarted,
                            maxPlayers = 10 \<rparr>)] \<rparr>)))
     = [(alice, DisconnectPacket (Localized missing_required_mod [''modA'', ''any'']))]
   \<and> rooms (JoinGame_listener (plain requires_modA) 1000 7 0
         ((solo ((client alice 1)\<lparr> usingReactor := True \<rparr>))\<lparr>
            rooms := [(7, \<lparr> hostid = 0, members = [], bans = [], state = NotStarted,
                            maxPlayers = 10 \<rparr>)] \<rparr>))
     = [(7, \<lparr> hostid = 1, members = [(1, 0)], bans = [], state = NotStarted, maxPlayers = 10 \<rparr>)]
   \<and> room (heap (JoinGame_listener (plain requires_modA) 1000 7 0
         ((solo ((client alice 1)\<lparr> usingReactor := True \<rparr>))\<lparr>
            rooms := [(7, \<lparr> hostid = 0, members = [], bans = [], state = NotStarted,
                            maxPlayers = 10 \<rparr>)] \<rparr>)) ! 0) = Some 7"
  by code_simp

text \<open>
  C7, on the code: a datagram from an address without a connection that cannot be
  parsed, or whose root tag is unknown, makes \<open>handleMessage\<close> call
  \<open>getOrCreateConnection\<close> for the line it logs, and that call registers a new
  connection. Only a packet that is parsed and is no hello packet leaves the registry
  as it is, by the test in front of the \<open>new Connection\<close> of the hello path.
\<close>

theorem unknown_endpoint_registered:
  assumes "map_of (connections w) ri = None"
  shows "connections (handleMessage X now buf Null ri w) = connections w @ [(ri, length (heap w))]
       \<and> connections (handleMessage X now buf Throws ri w) = connections w @ [(ri, length (heap w))]
       \<and> (\<not> is_ModdedHelloPacket packet \<longrightarrow> handleMessage X now buf (Parsed packet) ri w = w)"
  using assms by (simp add: handleMessage_def getOrCreateConnection_new)

theorem unknown_endpoint_registered_witness:
  "connections (handleMessage (plain default_reactor) 1000 [0x63, 1, 2] Null alice fresh_worker)
     = [(alice, 0)]
   \<and> connections (handleMessage (plain default_reactor) 1000 [1, 0] Throws alice fresh_worker)
     = [(alice, 0)]
   \<and> handleMessage (plain default_reactor) 1000 [12, 0, 1] (Parsed (PingPacket 1)) alice fresh_worker
     = fresh_worker"
proof -
  let ?X = "plain default_reactor"
  have n: "map_of (connections fresh_worker) alice = None" by code_simp
  have e: "connections fresh_worker @ [(alice, length (heap fresh_worker))] = [(alice, 0)]"
    by code_simp
  have h: "\<not> is_ModdedHelloPacket (PingPacket 1)" by simp
  from unknown_endpoint_registered [OF n, where X = ?X and now = 1000
        and packet = "PingPacket 1" and buf = "[0x63, 1, 2]"]
  have 1: "connections (handleMessage ?X 1000 [0x63, 1, 2] Null alice fresh_worker)
           = connections fresh_worker @ [(alice, length (heap fresh_worker))]"
    by blast
  from unknown_endpoint_registered [OF n, where X = ?X and now = 1000
        and packet = "PingPacket 1" and buf = "[1, 0]"]
  have 2: "connections (handleMessage ?X 1000 [1, 0] Throws alice fresh_worker)
           = connections fresh_worker @ [(alice, length (heap fresh_worker))]"
    by blast
  from unknown_endpoint_registered [OF n, where X = ?X and now = 1000
        and packet = "PingPacket 1" and buf = "[12, 0, 1]"] h
  have 3: "handleMessage ?X 1000 [12, 0, 1] (Parsed (PingPacket 1)) alice fresh_worker = fresh_worker"
    by blast
  show ?thesis using 3 unfolding 1 2 e by blast
qed

end
